theory Spec2Isabelle
  imports Complex_Main "HOL-Library.AList"
begin

chapter \<open>The program\<close>

section \<open>Python values\<close>

text \<open>
  Exceptions that escape a function are values: a function that can raise returns
  \<open>py_error + 'a\<close>, with \<open>Inl\<close> for the exception.
\<close>

datatype py_error = OSError | AttributeError | TypeError | KeyError

text \<open>
  JSON documents as Python's \<open>json\<close> module decodes them. An object is the list of
  its items in insertion order (a Python \<open>dict\<close>: the keys are distinct). \<open>JNum\<close> is
  a Python \<open>int\<close>, \<open>JReal\<close> a \<open>float\<close> (a real number here), and \<open>JNaN\<close> the
  float \<open>NaN\<close>, which pandas uses for a missing cell.
\<close>

datatype json =
    JNull
  | JBool bool
  | JNum int
  | JReal real
  | JNaN
  | JStr string
  | JArr "json list"
  | JObj "(string \<times> json) list"

text \<open>Python's truth value of a decoded document (\<open>if x:\<close>, \<open>not x\<close>).\<close>

fun truthy :: "json \<Rightarrow> bool" where
  "truthy JNull = False"
| "truthy (JBool b) = b"
| "truthy (JNum n) = (n \<noteq> 0)"
| "truthy (JReal x) = (x \<noteq> 0)"
| "truthy JNaN = True"
| "truthy (JStr s) = (s \<noteq> [])"
| "truthy (JArr xs) = (xs \<noteq> [])"
| "truthy (JObj kvs) = (kvs \<noteq> [])"

text \<open>
  A \<open>dict\<close> is an association list; \<open>AList.update\<close> overwrites the value of a key in
  place and appends a new key at the end, as assignment to \<open>d[k]\<close> does.
  \<open>dict_get d k v\<close> is \<open>d.get(k, v)\<close>, and also the read \<open>d[k]\<close> of a
  \<open>defaultdict\<close> whose default is \<open>v\<close>.
\<close>

definition dict_has :: "('k \<times> 'v) list \<Rightarrow> 'k \<Rightarrow> bool" where
  "dict_has d k = (map_of d k \<noteq> None)"

definition dict_get :: "('k \<times> 'v) list \<Rightarrow> 'k \<Rightarrow> 'v \<Rightarrow> 'v" where
  "dict_get d k v = (case map_of d k of None \<Rightarrow> v | Some x \<Rightarrow> x)"

section \<open>Data frames\<close>

text \<open>
  A cell of a pandas frame: \<open>None\<close>, \<open>NaN\<close> (a missing CSV field), a string, an
  integer, or a list of floats (an embedding vector).
\<close>

datatype cell = CNone | CNaN | CStr string | CInt int | CList "real list"

text \<open>
  A frame is its column labels and its rows; a row maps each column label to a cell, in
  column order. Rows are addressed by position (the frames of this program carry unique
  index labels, so \<open>df.at[index, c]\<close> addresses one row).
\<close>

record frame =
  columns :: "string list"
  rows :: "(string \<times> cell) list list"

section \<open>The environment and the state of the process\<close>

text \<open>
  What a call of the embedding or chat service does: it returns, or raises one of the
  exception classes the program distinguishes. \<open>APIError\<close> stands for an
  \<open>APIError\<close> that is neither of the two subclasses caught before it; it carries its
  \<open>status_code\<close> attribute when it has one.
\<close>

datatype 'a outcome =
    Returned 'a
  | RateLimitError
  | APIConnectionError
  | APIError "int option"
  | OtherException

text \<open>
  The error tracker (class \<open>APIErrorTracker\<close>): three \<open>defaultdict\<close>s and the log
  directory.
\<close>

record tracker =
  log_dir :: string
  error_counts :: "(string \<times> int) list"
  last_error_time :: "(string \<times> real) list"
  success_counts :: "(string \<times> int) list"

text \<open>
  The state of the process: the global tracker, the contents of the files written (a file
  is the list of the strings appended to it), the durations passed to \<open>time.sleep\<close>,
  the embedding requests sent, the number of chat requests sent, the frames handed to
  \<open>upsert_data\<close>, and the number of environment steps taken so far.
\<close>

record world =
  trk :: tracker
  fs :: "string \<Rightarrow> string list"
  slept :: "real list"
  requests :: "(json \<times> string) list"
  chat_requests :: nat
  upserted :: "frame list"
  steps :: nat

text \<open>
  The environment answers each interaction of the process; its answers are indexed by the
  step at which the interaction happens, so any behaviour of the clock, the disk and the
  remote services is some environment. \<open>time_time E k\<close> is what \<open>time.time()\<close> reads
  at step \<open>k\<close>, \<open>strftime E k f\<close> is \<open>datetime.now().strftime(f)\<close>,
  \<open>append_ok E k p\<close> tells whether opening \<open>p\<close> for appending and writing to it
  succeeds, \<open>diagnostic E k\<close> is the rendered text of the diagnostic built at step
  \<open>k\<close> (an f-string over an exception's message and a row's index label, which the model
  does not track). \<open>json_dumps\<close> and \<open>json_loads\<close> are the functions of Python's
  \<open>json\<close> module (\<open>None\<close>: \<open>JSONDecodeError\<close>), \<open>str_floats\<close> is \<open>str\<close> on a
  list of floats. \<open>embeddings_create\<close>, \<open>chat_completions_create\<close> and \<open>upsert_ok\<close>
  are the remote services: what the embedding request and the chat request made at a step
  do, and whether \<open>upsert_data\<close> called at a step returns (it raises otherwise).
\<close>

record env =
  time_time :: "nat \<Rightarrow> real"
  strftime :: "nat \<Rightarrow> string \<Rightarrow> string"
  append_ok :: "nat \<Rightarrow> string \<Rightarrow> bool"
  diagnostic :: "nat \<Rightarrow> string"
  json_dumps :: "json \<Rightarrow> string"
  json_loads :: "string \<Rightarrow> json option"
  str_floats :: "real list \<Rightarrow> string"
  embeddings_create :: "nat \<Rightarrow> json \<Rightarrow> string \<Rightarrow> real list outcome"
  chat_completions_create :: "nat \<Rightarrow> (string \<times> string) list \<Rightarrow> string \<Rightarrow> real \<Rightarrow> string option outcome"
  upsert_ok :: "nat \<Rightarrow> frame \<Rightarrow> bool"

definition sleep :: "real \<Rightarrow> world \<Rightarrow> world" where
  "sleep d w = w\<lparr>slept := slept w @ [d]\<rparr>"

section \<open>The error tracker (utils/error\_logger.py)\<close>

definition APIErrorTracker :: "string \<Rightarrow> tracker" where
  "APIErrorTracker dir =
     \<lparr>log_dir = dir, error_counts = [], last_error_time = [], success_counts = []\<rparr>"

text \<open>
  \<open>log_error\<close>: the two dictionaries are updated first; then the entry is built and
  appended to the daily file. The \<open>open\<close> and the \<open>write\<close> are not guarded, so an
  \<open>OSError\<close> there reaches the caller, after the dictionaries were updated.
  \<open>details\<close> is \<open>str(details)\<close>.
\<close>

definition log_entry :: "string \<Rightarrow> string \<Rightarrow> string \<Rightarrow> string \<Rightarrow> int \<Rightarrow> json" where
  "log_entry timestamp api_type error_type details n =
     JObj [(''timestamp'', JStr timestamp), (''api_type'', JStr api_type),
           (''error_type'', JStr error_type), (''details'', JStr details),
           (''count'', JNum n)]"

definition log_filename :: "string \<Rightarrow> string \<Rightarrow> string \<Rightarrow> string" where
  "log_filename dir api_type date_str = dir @ ''/'' @ api_type @ ''_errors_'' @ date_str @ ''.log''"

definition log_error :: "env \<Rightarrow> string \<Rightarrow> string \<Rightarrow> string \<Rightarrow> world \<Rightarrow> (py_error + json) \<times> world" where
  "log_error E error_type details api_type w =
     (let t = trk w;
          k = steps w;
          n = dict_get (error_counts t) error_type 0 + 1;
          t' = t\<lparr>error_counts := AList.update error_type n (error_counts t),
                 last_error_time := AList.update error_type (time_time E k) (last_error_time t)\<rparr>;
          timestamp = strftime E (k + 1) ''%Y-%m-%d %H:%M:%S'';
          entry = log_entry timestamp api_type error_type details n;
          date_str = strftime E (k + 2) ''%Y-%m-%d'';
          file = log_filename (log_dir t) api_type date_str;
          w' = w\<lparr>trk := t', steps := k + 4\<rparr>
      in if append_ok E (k + 3) file
         then (Inr entry, w'\<lparr>fs := (fs w)(file := fs w file @ [json_dumps E entry @ [CHR 0x0A]])\<rparr>)
         else (Inl OSError, w'))"

definition log_success :: "string \<Rightarrow> world \<Rightarrow> world" where
  "log_success operation_type w =
     (let t = trk w
      in w\<lparr>trk := t\<lparr>success_counts :=
           AList.update operation_type (dict_get (success_counts t) operation_type 0 + 1)
             (success_counts t)\<rparr>\<rparr>)"

text \<open>
  \<open>round(x, 2)\<close>, over the reals: to the nearest hundredth, ties to the even one.
\<close>

definition round_half_even :: "real \<Rightarrow> int" where
  "round_half_even x =
     (let f = \<lfloor>x\<rfloor>; d = x - of_int f
      in if d < 1 / 2 then f else if 1 / 2 < d then f + 1 else if even f then f else f + 1)"

definition round2 :: "real \<Rightarrow> real" where
  "round2 x = of_int (round_half_even (x * 100)) / 100"

record summary =
  total_errors :: int
  error_types :: "(string \<times> int) list"
  summary_success_counts :: "(string \<times> int) list"
  time_since_last_error :: "(string \<times> real) list"

definition get_error_summary :: "env \<Rightarrow> world \<Rightarrow> summary \<times> world" where
  "get_error_summary E w =
     (let t = trk w;
          current_time = time_time E (steps w);
          time_since_last =
            map (\<lambda>(error_type, last_time). (error_type, round2 (current_time - last_time)))
              (filter (\<lambda>(error_type, last_time). last_time > 0) (last_error_time t))
      in (\<lparr>total_errors = sum_list (map snd (error_counts t)),
           error_types = error_counts t,
           summary_success_counts = success_counts t,
           time_since_last_error = time_since_last\<rparr>,
          w\<lparr>steps := steps w + 1\<rparr>))"

text \<open>
  \<open>should_continue\<close>. The read \<open>self.last_error_time[error_type]\<close> of the
  \<open>defaultdict\<close> stores \<open>0.0\<close> under a key it does not hold yet.
\<close>

definition should_continue :: "env \<Rightarrow> string \<Rightarrow> int \<Rightarrow> real \<Rightarrow> world \<Rightarrow> bool \<times> world" where
  "should_continue E error_type threshold window_seconds w =
     (let t = trk w
      in if \<not> dict_has (error_counts t) error_type then (True, w)
         else if dict_get (error_counts t) error_type 0 < threshold then (True, w)
         else
           let current_time = time_time E (steps w);
               t1 = (if dict_has (last_error_time t) error_type then t
                     else t\<lparr>last_error_time := AList.update error_type 0 (last_error_time t)\<rparr>);
               time_since_last = current_time - dict_get (last_error_time t) error_type 0;
               w1 = w\<lparr>steps := steps w + 1\<rparr>
           in if time_since_last > window_seconds
              then (True, w1\<lparr>trk := t1\<lparr>error_counts := AList.update error_type 0 (error_counts t1)\<rparr>\<rparr>)
              else (False, w1\<lparr>trk := t1\<rparr>))"

section \<open>The document-service client (utils/confluence\_api.py)\<close>

text \<open>
  \<open>requests.get\<close> either raises a \<open>RequestException\<close> or answers with a status code
  and a body; \<open>Response c j\<close> is an answer whose body decodes to \<open>j\<close> (a body that is
  not JSON makes \<open>response.json()\<close> raise a \<open>RequestException\<close> of its own).
  \<open>api_call\<close> returns \<open>None\<close>, here \<open>JNull\<close>, on every failure.
\<close>

datatype http_result = RequestException | Response int json

definition api_call :: "(string \<Rightarrow> http_result) \<Rightarrow> string \<Rightarrow> json" where
  "api_call http url =
     (case http url of
        RequestException \<Rightarrow> JNull
      | Response status_code body \<Rightarrow> if status_code = 200 then body else JNull)"

text \<open>\<open>str\<close> of a natural number, for the f-strings that build URLs.\<close>

definition digit_char :: "nat \<Rightarrow> char" where
  "digit_char d = ''0123456789'' ! d"

fun str_nat :: "nat \<Rightarrow> string" where
  "str_nat n = (if n < 10 then [digit_char n] else str_nat (n div 10) @ [digit_char (n mod 10)])"

declare str_nat.simps [simp del]

definition spaces_url :: "string \<Rightarrow> nat \<Rightarrow> nat \<Rightarrow> string" where
  "spaces_url confluence_domain limit start =
     confluence_domain @ ''/wiki/api/v2/spaces?limit='' @ str_nat limit @ ''&start='' @ str_nat start"

definition get_all_spaces :: "(string \<Rightarrow> http_result) \<Rightarrow> string \<Rightarrow> nat \<Rightarrow> nat \<Rightarrow> json" where
  "get_all_spaces http confluence_domain start limit =
     api_call http (spaces_url confluence_domain limit start)"

text \<open>
  \<open>k in x\<close> and iteration over \<open>x\<close>, by the Python type of \<open>x\<close>: a \<open>dict\<close> is
  searched and iterated by key, a \<open>list\<close> by element, a \<open>str\<close> by substring and by
  character; anything else raises \<open>TypeError\<close>.
\<close>

fun has_infix :: "'a list \<Rightarrow> 'a list \<Rightarrow> bool" where
  "has_infix p [] = (p = [])"
| "has_infix p (c # cs) = (take (length p) (c # cs) = p \<or> has_infix p cs)"

definition py_in :: "string \<Rightarrow> json \<Rightarrow> py_error + bool" where
  "py_in k x =
     (case x of
        JObj kvs \<Rightarrow> Inr (dict_has kvs k)
      | JArr xs \<Rightarrow> Inr (JStr k \<in> set xs)
      | JStr s \<Rightarrow> Inr (has_infix k s)
      | _ \<Rightarrow> Inl TypeError)"

definition py_iter :: "json \<Rightarrow> py_error + json list" where
  "py_iter x =
     (case x of
        JArr xs \<Rightarrow> Inr xs
      | JStr s \<Rightarrow> Inr (map (\<lambda>c. JStr [c]) s)
      | JObj kvs \<Rightarrow> Inr (map (\<lambda>(k, v). JStr k) kvs)
      | _ \<Rightarrow> Inl TypeError)"

text \<open>
  One turn of the loop of \<open>get_all_spaces_list\<close> on the page just fetched: leave the
  loop, raise, or extend \<open>all_spaces\<close> and go on when the page has a \<open>next\<close> link.
  Subscripting a \<open>list\<close> or a \<open>str\<close> with \<open>"results"\<close> raises \<open>TypeError\<close>, and
  \<open>.get\<close> on a \<open>_links\<close> that is not a \<open>dict\<close> raises \<open>AttributeError\<close>.
\<close>

datatype page_step = Break | Raise py_error | Extend "json list" bool

definition spaces_page :: "json \<Rightarrow> page_step" where
  "spaces_page spaces_data =
     (if \<not> truthy spaces_data then Break
      else case py_in ''results'' spaces_data of
        Inl e \<Rightarrow> Raise e
      | Inr False \<Rightarrow> Break
      | Inr True \<Rightarrow>
          (case spaces_data of
             JObj kvs \<Rightarrow>
               (let results = dict_get kvs ''results'' JNull
                in if \<not> truthy results then Break
                   else case py_iter results of
                     Inl e \<Rightarrow> Raise e
                   | Inr items \<Rightarrow>
                       (case dict_get kvs ''_links'' (JObj []) of
                          JObj links \<Rightarrow> Extend items (truthy (dict_get links ''next'' JNull))
                        | _ \<Rightarrow> Raise AttributeError))
           | _ \<Rightarrow> Raise TypeError))"

text \<open>
  The loop \<open>while True\<close> may run forever; \<open>None\<close> is the result of a run that does.
  The last argument collects the URLs requested.
\<close>

partial_function (option) spaces_loop ::
  "(string \<Rightarrow> http_result) \<Rightarrow> string \<Rightarrow> json list \<Rightarrow> nat \<Rightarrow> string list
     \<Rightarrow> ((py_error + json list) \<times> string list) option" where
  "spaces_loop http confluence_domain all_spaces start urls =
     (let limit = 100;
          urls' = urls @ [spaces_url confluence_domain limit start]
      in case spaces_page (get_all_spaces http confluence_domain start limit) of
           Break \<Rightarrow> Some (Inr all_spaces, urls')
         | Raise e \<Rightarrow> Some (Inl e, urls')
         | Extend items has_next \<Rightarrow>
             if has_next then spaces_loop http confluence_domain (all_spaces @ items) (start + limit) urls'
             else Some (Inr (all_spaces @ items), urls'))"

definition get_all_spaces_list ::
  "(string \<Rightarrow> http_result) \<Rightarrow> string \<Rightarrow> ((py_error + json list) \<times> string list) option" where
  "get_all_spaces_list http confluence_domain = spaces_loop http confluence_domain [] 0 []"

text \<open>
  \<open>fetch_labels\<close>. Neither \<open>.get("results", [])\<close> nor \<open>item.get("name")\<close> can raise
  \<open>KeyError\<close>, so the handler \<open>except KeyError: return None\<close> is never entered;
  \<open>.get\<close> on a value that is not a \<open>dict\<close> raises \<open>AttributeError\<close>, which no
  handler catches.
\<close>

fun labels_loop :: "json list \<Rightarrow> bool \<Rightarrow> py_error + bool option" where
  "labels_loop [] internal_only = Inr (Some internal_only)"
| "labels_loop (item # items) internal_only =
     (case item of
        JObj kvs \<Rightarrow>
          labels_loop items
            (if dict_get kvs ''name'' JNull = JStr ''internal_only'' then True else internal_only)
      | _ \<Rightarrow> Inl AttributeError)"

definition fetch_labels :: "(string \<Rightarrow> http_result) \<Rightarrow> string \<Rightarrow> string \<Rightarrow> py_error + bool option" where
  "fetch_labels http confluence_domain page_id =
     (let url = confluence_domain @ ''/wiki/api/v2/pages/'' @ page_id @ ''/labels'';
          json_data = api_call http url
      in if truthy json_data then
           (case json_data of
              JObj kvs \<Rightarrow>
                (case py_iter (dict_get kvs ''results'' (JArr [])) of
                   Inl e \<Rightarrow> Inl e
                 | Inr items \<Rightarrow> labels_loop items False)
            | _ \<Rightarrow> Inl AttributeError)
         else Inr None)"

section \<open>The chat client (utils/openai\_logic.py)\<close>

text \<open>
  The loop of \<open>get_chat_completion_messages\<close>, from a given \<open>retry_count\<close>. Each
  handler increments \<open>retry_count\<close> before it computes \<open>wait_time\<close>. Reading
  \<open>e.status_code\<close> of an \<open>APIError\<close> that has none raises \<open>AttributeError\<close> inside the
  handler. A loop that ends without a \<open>return\<close> yields \<open>None\<close>.
\<close>

function chat_loop ::
  "env \<Rightarrow> (string \<times> string) list \<Rightarrow> string \<Rightarrow> real \<Rightarrow> nat \<Rightarrow> nat \<Rightarrow> world
     \<Rightarrow> (py_error + string option) \<times> world" where
  "chat_loop E messages model_chat temperature max_retries retry_count w =
     (if retry_count \<le> max_retries then
        let w1 = w\<lparr>chat_requests := chat_requests w + 1, steps := steps w + 1\<rparr>
        in case chat_completions_create E (steps w) messages model_chat temperature of
             Returned content \<Rightarrow> (Inr content, w1)
           | RateLimitError \<Rightarrow>
               (let retry_count' = retry_count + 1;
                    wait_time = 2 ^ retry_count' * 5
                in if retry_count' > max_retries
                   then (Inr (Some ''I'm sorry, but I'm currently experiencing high traffic. Please try again in a few minutes.''), w1)
                   else chat_loop E messages model_chat temperature max_retries retry_count'
                          (sleep wait_time w1))
           | APIConnectionError \<Rightarrow>
               (let retry_count' = retry_count + 1;
                    wait_time = 5 * real retry_count'
                in if retry_count' > max_retries
                   then (Inr (Some ''I'm sorry, but I'm having trouble connecting to the AI service. Please try again later.''), w1)
                   else chat_loop E messages model_chat temperature max_retries retry_count'
                          (sleep wait_time w1))
           | APIError status_code \<Rightarrow>
               (case status_code of
                  None \<Rightarrow> (Inl AttributeError, w1)
                | Some c \<Rightarrow>
                    if c = 429 then
                      (let retry_count' = retry_count + 1;
                           wait_time = 2 ^ retry_count' * 5
                       in if retry_count' > max_retries
                          then (Inr (Some ''I'm sorry, but the service is currently busy. Please try again in a few minutes.''), w1)
                          else chat_loop E messages model_chat temperature max_retries retry_count'
                                 (sleep wait_time w1))
                    else (Inr (Some ''I apologize, but I encountered an error processing your request.''), w1))
           | OtherException \<Rightarrow>
               (Inr (Some ''I apologize, but something went wrong while processing your request.''), w1)
      else (Inr None, w))"
  by pat_completeness auto
termination
  by (relation "measure (\<lambda>(E, messages, model_chat, temperature, max_retries, retry_count, w).
                  Suc max_retries - retry_count)") auto

declare chat_loop.simps [simp del]

definition get_chat_completion_messages ::
  "env \<Rightarrow> (string \<times> string) list \<Rightarrow> string \<Rightarrow> real \<Rightarrow> world
     \<Rightarrow> (py_error + string option) \<times> world" where
  "get_chat_completion_messages E messages model_chat temperature w =
     chat_loop E messages model_chat temperature 3 0 w"

section \<open>Operations on frames\<close>

definition empty_frame :: "string list \<Rightarrow> frame" where
  "empty_frame cs = \<lparr>columns = cs, rows = []\<rparr>"

definition is_empty :: "frame \<Rightarrow> bool" where
  "is_empty df = (rows df = [] \<or> columns df = [])"

definition cell_at :: "(string \<times> cell) list \<Rightarrow> string \<Rightarrow> cell" where
  "cell_at r c = dict_get r c CNaN"

definition notna :: "cell \<Rightarrow> bool" where
  "notna x = (x \<noteq> CNone \<and> x \<noteq> CNaN)"

definition is_list :: "cell \<Rightarrow> bool" where
  "is_list x = (case x of CList v \<Rightarrow> True | _ \<Rightarrow> False)"

definition filter_rows :: "((string \<times> cell) list \<Rightarrow> bool) \<Rightarrow> frame \<Rightarrow> frame" where
  "filter_rows P df = df\<lparr>rows := filter P (rows df)\<rparr>"

definition set_column :: "string \<Rightarrow> ((string \<times> cell) list \<Rightarrow> cell) \<Rightarrow> frame \<Rightarrow> frame" where
  "set_column c f df =
     df\<lparr>columns := (if c \<in> set (columns df) then columns df else columns df @ [c]),
        rows := map (\<lambda>r. AList.update c (f r) r) (rows df)\<rparr>"

definition set_cell :: "nat \<Rightarrow> string \<Rightarrow> cell \<Rightarrow> frame \<Rightarrow> frame" where
  "set_cell i c x df = df\<lparr>rows := (rows df)[i := AList.update c x (rows df ! i)]\<rparr>"

definition rename_column :: "string \<Rightarrow> string \<Rightarrow> frame \<Rightarrow> frame" where
  "rename_column a b df =
     df\<lparr>columns := map (\<lambda>c. if c = a then b else c) (columns df),
        rows := map (map (\<lambda>(c, x). (if c = a then b else c, x))) (rows df)\<rparr>"

definition select_columns :: "string list \<Rightarrow> frame \<Rightarrow> frame" where
  "select_columns cs df = \<lparr>columns = cs, rows = map (\<lambda>r. map (\<lambda>c. (c, cell_at r c)) cs) (rows df)\<rparr>"


definition iloc :: "nat \<Rightarrow> nat \<Rightarrow> frame \<Rightarrow> frame" where
  "iloc i j df = df\<lparr>rows := take (j - i) (drop i (rows df))\<rparr>"


definition wf_frame :: "frame \<Rightarrow> bool" where
  "wf_frame df = (distinct (columns df) \<and> list_all (\<lambda>r. map fst r = columns df) (rows df))"

section \<open>Data preparation (utils/data\_prep.py)\<close>

definition str_int :: "int \<Rightarrow> string" where
  "str_int n = (if n < 0 then ''-'' @ str_nat (nat (- n)) else str_nat (nat n))"

definition str_cell :: "env \<Rightarrow> cell \<Rightarrow> string" where
  "str_cell E x =
     (case x of
        CNone \<Rightarrow> ''None''
      | CNaN \<Rightarrow> ''nan''
      | CStr s \<Rightarrow> s
      | CInt n \<Rightarrow> str_int n
      | CList v \<Rightarrow> str_floats E v)"

definition cell_json :: "cell \<Rightarrow> json" where
  "cell_json x =
     (case x of
        CNone \<Rightarrow> JNull
      | CNaN \<Rightarrow> JNaN
      | CStr s \<Rightarrow> JStr s
      | CInt n \<Rightarrow> JNum n
      | CList v \<Rightarrow> JArr (map JReal v))"

definition metadata_of :: "env \<Rightarrow> (string \<times> cell) list \<Rightarrow> cell" where
  "metadata_of E row =
     CStr (json_dumps E (JObj [(''source'', cell_json (cell_at row ''source'')),
                             (''text'', cell_json (cell_at row ''content''))]))"

definition clean_data_pinecone_schema :: "env \<Rightarrow> frame \<Rightarrow> py_error + frame" where
  "clean_data_pinecone_schema E df0 =
     (if \<not> {''id'', ''tiny_link'', ''content''} \<subseteq> set (columns df0)
      then Inr (empty_frame [''id'', ''metadata''])
      else
        let df1 = filter_rows (\<lambda>r. notna (cell_at r ''content'') \<and> cell_at r ''content'' \<noteq> CStr '''') df0
        in if is_empty df1 then Inr (empty_frame [''id'', ''metadata''])
           else
             let df2 = set_column ''id'' (\<lambda>r. CStr (str_cell E (cell_at r ''id''))) df1;
                 df3 = rename_column ''tiny_link'' ''source'' df2
             in if 1 < count_list (columns df3) ''source'' then Inl TypeError
                else Inr (select_columns [''id'', ''metadata'']
                            (set_column ''metadata'' (metadata_of E) df3)))"

definition create_embeddings :: "env \<Rightarrow> json \<Rightarrow> string \<Rightarrow> world \<Rightarrow> real list outcome \<times> world" where
  "create_embeddings E txt model_emb w =
     (let max_length = 8000;
          call = (\<lambda>input. (embeddings_create E (steps w) input model_emb,
                           w\<lparr>requests := requests w @ [(input, model_emb)], steps := steps w + 1\<rparr>))
      in case txt of
           JStr s \<Rightarrow> call (JStr (if length s > max_length then take max_length s else s))
         | JArr xs \<Rightarrow> call (JArr (if length xs > max_length then take max_length xs else xs))
         | JObj kvs \<Rightarrow> if length kvs > max_length then (OtherException, w) else call txt
         | _ \<Rightarrow> (OtherException, w))"

record gen_state =
  df :: frame
  wld :: world
  successful_embeddings :: nat
  failed_embeddings :: nat

datatype gen_result = Raised py_error gen_state | Stopped gen_state | Finished gen_state

definition log_failed :: "env \<Rightarrow> string \<Rightarrow> gen_state \<Rightarrow> world \<Rightarrow> gen_result" where
  "log_failed E error_type s w =
     (case log_error E error_type (diagnostic E (steps w)) ''openai'' w of
        (Inl e, w') \<Rightarrow> Raised e (s\<lparr>wld := w'\<rparr>)
      | (Inr entry, w') \<Rightarrow> Finished (s\<lparr>wld := w', failed_embeddings := failed_embeddings s + 1\<rparr>))"

function embed_row ::
  "env \<Rightarrow> string \<Rightarrow> nat \<Rightarrow> json \<Rightarrow> nat \<Rightarrow> nat \<Rightarrow> gen_state \<Rightarrow> gen_result" where
  "embed_row E model_emb index txt max_retries retries s =
     (if retries \<le> max_retries then
        case should_continue E ''rate_limit'' 5 60 (wld s) of
          (False, w1) \<Rightarrow> Stopped (s\<lparr>wld := w1\<rparr>)
        | (True, w1) \<Rightarrow>
            (case create_embeddings E txt model_emb (sleep 0.1 w1) of
               (Returned response, w2) \<Rightarrow>
                 Finished (s\<lparr>df := set_cell index ''values'' (CList response) (df s),
                             wld := log_success ''embedding_generation'' w2,
                             successful_embeddings := successful_embeddings s + 1\<rparr>)
             | (RateLimitError, w2) \<Rightarrow>
                 (case log_error E ''rate_limit'' (diagnostic E (steps w2)) ''openai'' w2 of
                    (Inl e, w3) \<Rightarrow> Raised e (s\<lparr>wld := w3\<rparr>)
                  | (Inr entry, w3) \<Rightarrow>
                      let wait_time = 2 ^ retries * 5
                      in if retries + 1 > max_retries
                         then Finished (s\<lparr>wld := w3, failed_embeddings := failed_embeddings s + 1\<rparr>)
                         else embed_row E model_emb index txt max_retries (retries + 1)
                                (s\<lparr>wld := sleep wait_time w3\<rparr>))
             | (APIConnectionError, w2) \<Rightarrow>
                 (case log_error E ''api_connection'' (diagnostic E (steps w2)) ''openai'' w2 of
                    (Inl e, w3) \<Rightarrow> Raised e (s\<lparr>wld := w3\<rparr>)
                  | (Inr entry, w3) \<Rightarrow>
                      if retries < max_retries
                      then embed_row E model_emb index txt max_retries (retries + 1)
                             (s\<lparr>wld := sleep (5 * real retries) w3\<rparr>)
                      else Finished (s\<lparr>wld := w3, failed_embeddings := failed_embeddings s + 1\<rparr>))
             | (APIError status_code, w2) \<Rightarrow>
                 if status_code = Some 429 then
                   let wait_time = 2 ^ retries * 5
                   in if retries + 1 > max_retries
                      then Finished (s\<lparr>wld := w2, failed_embeddings := failed_embeddings s + 1\<rparr>)
                      else embed_row E model_emb index txt max_retries (retries + 1)
                             (s\<lparr>wld := sleep wait_time w2\<rparr>)
                 else log_failed E ''api_error'' s w2
             | (OtherException, w2) \<Rightarrow> log_failed E ''unknown'' s w2)
      else Finished s)"
  by pat_completeness auto
termination
  by (relation "measure (\<lambda>(E, model_emb, index, txt, max_retries, retries, s).
                  Suc max_retries - retries)") auto

declare embed_row.simps [simp del]

definition process_row :: "env \<Rightarrow> string \<Rightarrow> nat \<times> (string \<times> cell) list \<Rightarrow> gen_state \<Rightarrow> gen_result" where
  "process_row E model_emb indexed_row s =
     (case indexed_row of (index, row) \<Rightarrow>
        (case cell_at row ''metadata'' of
           CStr content \<Rightarrow>
             (case json_loads E content of
                None \<Rightarrow> log_failed E ''json_decode'' s (wld s)
              | Some meta \<Rightarrow>
                  (case meta of
                     JObj kvs \<Rightarrow>
                       (let txt = dict_get kvs ''text'' (JStr '''')
                        in if \<not> truthy txt then log_failed E ''missing_text'' s (wld s)
                           else embed_row E model_emb index txt 3 0 s)
                   | _ \<Rightarrow> Raised AttributeError s))
         | _ \<Rightarrow> Raised TypeError s))"

fun process_rows :: "env \<Rightarrow> string \<Rightarrow> (nat \<times> (string \<times> cell) list) list \<Rightarrow> gen_state \<Rightarrow> gen_result" where
  "process_rows E model_emb [] s = Finished s"
| "process_rows E model_emb (indexed_row # later) s =
     (case process_row E model_emb indexed_row s of
        Finished s' \<Rightarrow> process_rows E model_emb later s'
      | Stopped s' \<Rightarrow> Stopped s'
      | Raised e s' \<Rightarrow> Raised e s')"

definition embedding_status :: "(string \<times> cell) list \<Rightarrow> cell" where
  "embedding_status x =
     (if is_list (dict_get x ''values'' CNone) then CStr ''success'' else CStr ''not_processed'')"

definition generate_embeddings_and_add_to_df ::
  "env \<Rightarrow> frame \<Rightarrow> string \<Rightarrow> world \<Rightarrow> (py_error + frame) \<times> world" where
  "generate_embeddings_and_add_to_df E df0 model_emb w =
     (if is_empty df0 then (Inr (empty_frame [''id'', ''metadata'', ''values'']), w)
      else if ''metadata'' \<notin> set (columns df0)
      then (Inr (empty_frame [''id'', ''metadata'', ''values'']), w)
      else
        let df1 = set_column ''values'' (\<lambda>r. CNone) df0;
            s0 = \<lparr>df = df1, wld = w, successful_embeddings = 0, failed_embeddings = 0\<rparr>
        in case process_rows E model_emb (zip [0..<length (rows df1)] (rows df1)) s0 of
             Raised e s \<Rightarrow> (Inl e, wld s)
           | Stopped s \<Rightarrow> (Inr (set_column ''embedding_status'' embedding_status (df s)), wld s)
           | Finished s \<Rightarrow>
               (Inr (set_column ''embedding_status'' embedding_status (df s)),
                snd (get_error_summary E (wld s))))"

section \<open>The ingestion refresh of the query application (app\_pinecone\_openai.py)\<close>














section \<open>Histories of the tracker\<close>

text \<open>\<open>log_error\<close> called once for each of a list of details, whatever each call returns.\<close>

fun log_errors :: "env \<Rightarrow> string \<Rightarrow> string list \<Rightarrow> world \<Rightarrow> world" where
  "log_errors E error_type [] w = w"
| "log_errors E error_type (d # ds) w =
     log_errors E error_type ds (snd (log_error E error_type d ''openai'' w))"

text \<open>
  The states the tracker of a running process can be in, with the set of the error types
  logged so far: it starts as \<open>APIErrorTracker dir\<close>, and only its own methods change
  it, while the rest of the process state changes freely. The clock reads a positive
  time (seconds since the epoch) whenever an error is logged.
\<close>

inductive tracker_reachable :: "env \<Rightarrow> world \<Rightarrow> string set \<Rightarrow> bool" for E :: env where
  fresh: "trk w = APIErrorTracker dir \<Longrightarrow> tracker_reachable E w {}"
| elsewhere: "tracker_reachable E w L \<Longrightarrow> trk w' = trk w \<Longrightarrow> tracker_reachable E w' L"
| logged_error: "tracker_reachable E w L \<Longrightarrow> 0 < time_time E (steps w) \<Longrightarrow>
     tracker_reachable E (snd (log_error E error_type details api_type w)) (insert error_type L)"
| logged_success: "tracker_reachable E w L \<Longrightarrow> tracker_reachable E (log_success operation_type w) L"
| checked: "tracker_reachable E w L \<Longrightarrow>
     tracker_reachable E (snd (should_continue E error_type threshold window_seconds w)) L"

section \<open>Sample environments\<close>

text \<open>
  An environment whose clock advances one second per step from 1000, whose disk accepts
  every append and whose services always answer with a rate-limit error; a fresh process
  state; and the same environment with a disk that refuses every append.
\<close>

definition E0 :: env where
  "E0 = \<lparr>time_time = (\<lambda>k. 1000 + real k), strftime = (\<lambda>k f. ''2026-01-01''),
         append_ok = (\<lambda>k p. True), diagnostic = (\<lambda>k. ''d''), json_dumps = (\<lambda>j. ''{}''),
         json_loads = (\<lambda>s. None), str_floats = (\<lambda>v. ''[]''),
         embeddings_create = (\<lambda>k j m. RateLimitError),
         chat_completions_create = (\<lambda>k ms m t. RateLimitError), upsert_ok = (\<lambda>k f. True)\<rparr>"

definition w0 :: world where
  "w0 = \<lparr>trk = APIErrorTracker ''./logs'', fs = (\<lambda>p. []), slept = [], requests = [],
         chat_requests = 0, upserted = [], steps = 0\<rparr>"

definition E_full_disk :: env where
  "E_full_disk = E0\<lparr>append_ok := (\<lambda>k p. False)\<rparr>"

definition E1 :: env where
  "E1 = E0\<lparr>json_loads := (\<lambda>s. if s = ''bad'' then None else Some (JObj [(''source'', JStr ''/x''), (''text'', JStr s)])),
          json_dumps := (\<lambda>j. case j of JObj [(a, b), (c, JStr s)] \<Rightarrow> s | _ \<Rightarrow> ''bad''),
          embeddings_create := (\<lambda>k input model. Returned [real k, 1])\<rparr>"

definition csv1 :: frame where
  "csv1 = \<lparr>columns = [''id'', ''tiny_link'', ''content''],
           rows = [[(''id'', CInt 11), (''tiny_link'', CStr ''/x/a''), (''content'', CStr ''alpha'')],
                   [(''id'', CInt 12), (''tiny_link'', CStr ''/x/b''), (''content'', CNaN)],
                   [(''id'', CInt 13), (''tiny_link'', CNaN), (''content'', CStr '''')],
                   [(''id'', CStr ''p14''), (''tiny_link'', CStr ''/x/d''), (''content'', CStr ''delta'')]]\<rparr>"

text \<open>
  What a page of the spaces collection carries: its \<open>results\<close> list, a \<open>_links.next\<close>
  link, or no such link.
\<close>

definition page_results :: "json \<Rightarrow> json list option" where
  "page_results p =
     (case p of
        JObj kvs \<Rightarrow> (case map_of kvs ''results'' of Some (JArr rs) \<Rightarrow> Some rs | _ \<Rightarrow> None)
      | _ \<Rightarrow> None)"

definition has_next_link :: "json \<Rightarrow> bool" where
  "has_next_link p =
     (case p of
        JObj kvs \<Rightarrow>
          (case map_of kvs ''_links'' of
             Some (JObj links) \<Rightarrow> (case map_of links ''next'' of Some n \<Rightarrow> truthy n | None \<Rightarrow> False)
           | _ \<Rightarrow> False)
      | _ \<Rightarrow> False)"

definition omits_next_link :: "json \<Rightarrow> bool" where
  "omits_next_link p =
     (case p of
        JObj kvs \<Rightarrow>
          (case map_of kvs ''_links'' of
             None \<Rightarrow> True
           | Some (JObj links) \<Rightarrow> map_of links ''next'' = None
           | _ \<Rightarrow> False)
      | _ \<Rightarrow> False)"

definition page0 :: json where
  "page0 = JObj [(''results'', JArr [JStr ''A'']), (''_links'', JObj [(''next'', JStr ''/next1'')])]"
definition page1 :: json where
  "page1 = JObj [(''results'', JArr []), (''_links'', JObj [(''next'', JStr ''/next2'')])]"
definition page2 :: json where
  "page2 = JObj [(''results'', JArr [JStr ''B'']), (''_links'', JObj [])]"
definition page1' :: json where
  "page1' = JObj [(''results'', JArr [JStr ''C'', JStr ''D'']), (''_links'', JObj [(''next'', JStr ''/next2'')])]"

definition serve :: "json list \<Rightarrow> string \<Rightarrow> http_result" where
  "serve pages url =
     (case filter (\<lambda>i. url = spaces_url ''https://wiki'' 100 (100 * i)) [0..<length pages] of
        [] \<Rightarrow> Response 404 JNull
      | i # _ \<Rightarrow> Response 200 (pages ! i))"

definition http_unlabelled :: "string \<Rightarrow> http_result" where
  "http_unlabelled url = Response 200 (JObj [(''message'', JStr ''results unavailable'')])"

text \<open>A frame whose columns include one already named \<open>source\<close>.\<close>

definition csv_with_source :: frame where
  "csv_with_source =
     \<lparr>columns = [''id'', ''tiny_link'', ''content'', ''source''],
      rows = [[(''id'', CInt 11), (''tiny_link'', CStr ''/x/a''), (''content'', CStr ''alpha''),
               (''source'', CStr ''wiki'')]]\<rparr>"

text \<open>
  What the cleaning is to produce from a row, and which rows it is to keep: the row's
  \<open>id\<close> as a string, and the JSON encoding of \<open>{source: tiny_link, text: content}\<close>.
\<close>

definition cleaned_row :: "env \<Rightarrow> (string \<times> cell) list \<Rightarrow> (string \<times> cell) list" where
  "cleaned_row E r =
     [(''id'', CStr (str_cell E (cell_at r ''id''))),
      (''metadata'', CStr (json_dumps E (JObj [(''source'', cell_json (cell_at r ''tiny_link'')),
                                              (''text'', cell_json (cell_at r ''content''))])))]"

definition has_content :: "(string \<times> cell) list \<Rightarrow> bool" where
  "has_content r = (cell_at r ''content'' \<noteq> CNone \<and> cell_at r ''content'' \<noteq> CNaN
                    \<and> cell_at r ''content'' \<noteq> CStr [])"

text \<open>The four steps of the cleaning on one row: coerce, rename, encode, select.\<close>

definition clean_one :: "env \<Rightarrow> (string \<times> cell) list \<Rightarrow> (string \<times> cell) list" where
  "clean_one E r =
     (let r1 = AList.update ''id'' (CStr (str_cell E (cell_at r ''id''))) r;
          r3 = map (\<lambda>(c, x). (if c = ''tiny_link'' then ''source'' else c, x)) r1;
          r4 = AList.update ''metadata'' (metadata_of E r3) r3
      in [(''id'', cell_at r4 ''id''), (''metadata'', cell_at r4 ''metadata'')])"

text \<open>
  The check \<open>should_continue("rate_limit", threshold=5, window_seconds=60)\<close> passes
  whatever the clock reads when fewer than five rate-limit errors are counted.
\<close>

definition circuit_closed :: "world \<Rightarrow> bool" where
  "circuit_closed w =
     (\<not> dict_has (error_counts (trk w)) ''rate_limit''
      \<or> dict_get (error_counts (trk w)) ''rate_limit'' 0 < 5)"

text \<open>
  The rows of a batch by their \<open>metadata\<close>: a string that fails JSON decoding; a string
  that decodes to an object whose \<open>text\<close> is missing or falsy; a string that decodes to
  an object with a non-empty string as \<open>text\<close>. \<open>skipped E row s\<close> is the state after
  a row of the first two kinds: the error is logged under its type and counted as failed.
\<close>

definition decode_fails :: "env \<Rightarrow> (string \<times> cell) list \<Rightarrow> bool" where
  "decode_fails E row =
     (case cell_at row ''metadata'' of CStr m \<Rightarrow> json_loads E m = None | _ \<Rightarrow> False)"

definition lacks_text :: "env \<Rightarrow> (string \<times> cell) list \<Rightarrow> bool" where
  "lacks_text E row =
     (case cell_at row ''metadata'' of
        CStr m \<Rightarrow>
          (case json_loads E m of
             Some (JObj kvs) \<Rightarrow> \<not> truthy (dict_get kvs ''text'' (JStr []))
           | _ \<Rightarrow> False)
      | _ \<Rightarrow> False)"

definition has_text :: "env \<Rightarrow> (string \<times> cell) list \<Rightarrow> bool" where
  "has_text E row =
     (case cell_at row ''metadata'' of
        CStr m \<Rightarrow>
          (case json_loads E m of
             Some (JObj kvs) \<Rightarrow>
               (case dict_get kvs ''text'' (JStr []) of JStr t \<Rightarrow> t \<noteq> [] | _ \<Rightarrow> False)
           | _ \<Rightarrow> False)
      | _ \<Rightarrow> False)"

definition skip_type :: "env \<Rightarrow> (string \<times> cell) list \<Rightarrow> string" where
  "skip_type E row = (if decode_fails E row then ''json_decode'' else ''missing_text'')"

definition skipped :: "env \<Rightarrow> (string \<times> cell) list \<Rightarrow> gen_state \<Rightarrow> gen_state" where
  "skipped E row s =
     s\<lparr>wld := snd (log_error E (skip_type E row) (diagnostic E (steps (wld s))) ''openai'' (wld s)),
       failed_embeddings := failed_embeddings s + 1\<rparr>"

text \<open>
  Two sample batches for the environment \<open>E1\<close>, whose \<open>json_loads\<close> fails on
  \<open>bad\<close>: one of two rows, and one of 25 rows whose 10th and 11th rows fail.
\<close>

definition batch_bad :: frame where
  "batch_bad = \<lparr>columns = [''id'', ''metadata''],
                rows = [[(''id'', CStr ''1''), (''metadata'', CStr ''bad'')],
                        [(''id'', CStr ''2''), (''metadata'', CStr ''alpha'')]]\<rparr>"

definition batch25 :: frame where
  "batch25 = \<lparr>columns = [''id'', ''metadata''],
              rows = replicate 9 [(''id'', CStr ''1''), (''metadata'', CStr ''alpha'')]
                     @ [[(''id'', CStr ''2''), (''metadata'', CStr ''bad'')],
                        [(''id'', CStr ''3''), (''metadata'', CStr ''bad'')]]
                     @ replicate 14 [(''id'', CStr ''4''), (''metadata'', CStr ''beta'')]\<rparr>"




definition w5 :: world where
  "w5 = log_errors E1 ''rate_limit'' [''a'', ''b'', ''c'', ''d'', ''e''] w0"



section \<open>What the ingestion refresh is to establish\<close>


















chapter \<open>Properties\<close>

section \<open>The error tracker\<close>

lemma dict_get_update: "dict_get (AList.update k v d) k' x = (if k' = k then v else dict_get d k' x)"
  by (simp add: dict_get_def update_conv')

lemma log_error_counts:
  "error_counts (trk (snd (log_error E et d api w))) =
     AList.update et (dict_get (error_counts (trk w)) et 0 + 1) (error_counts (trk w))"
  by (simp add: log_error_def Let_def)

lemma log_error_last:
  "last_error_time (trk (snd (log_error E et d api w))) =
     AList.update et (time_time E (steps w)) (last_error_time (trk w))"
  by (simp add: log_error_def Let_def)

lemma log_error_steps: "steps (snd (log_error E et d api w)) = steps w + 4"
  by (simp add: log_error_def Let_def)

lemma dict_has_update: "dict_has (AList.update k v d) k' = (k' = k \<or> dict_has d k')"
  by (simp add: dict_has_def update_conv')

lemma log_errors_count:
  "dict_get (error_counts (trk (log_errors E et ds w))) et 0 =
     dict_get (error_counts (trk w)) et 0 + int (length ds)"
  by (induction ds arbitrary: w) (simp_all add: log_error_counts dict_get_update)

lemma log_errors_steps: "steps (log_errors E et ds w) = steps w + 4 * length ds"
  by (induction ds arbitrary: w) (simp_all add: log_error_steps)

lemma log_errors_has:
  "ds \<noteq> [] \<Longrightarrow> dict_has (error_counts (trk (log_errors E et ds w))) et"
proof (induction ds arbitrary: w)
  case Nil then show ?case by simp
next
  case (Cons d ds)
  show ?case
  proof (cases ds)
    case Nil
    then show ?thesis by (simp add: log_error_counts dict_has_update)
  next
    case (Cons a list)
    then show ?thesis using Cons.IH by simp
  qed
qed

lemma log_errors_last:
  "ds \<noteq> [] \<Longrightarrow> dict_get (last_error_time (trk (log_errors E et ds w))) et 0 =
     time_time E (steps w + 4 * (length ds - 1))"
proof (induction ds arbitrary: w)
  case Nil then show ?case by simp
next
  case (Cons d ds)
  show ?case
  proof (cases ds)
    case Nil
    then show ?thesis by (simp add: log_error_last dict_get_update)
  next
    case (Cons a list)
    then show ?thesis using Cons.IH[of "snd (log_error E et d ''openai'' w)"]
      by (simp add: log_error_steps add.assoc)
  qed
qed

lemma should_continue_result:
  "fst (should_continue E et th win w) =
     (\<not> dict_has (error_counts (trk w)) et
      \<or> dict_get (error_counts (trk w)) et 0 < th
      \<or> win < time_time E (steps w) - dict_get (last_error_time (trk w)) et 0)"
  by (simp add: should_continue_def Let_def)

lemma should_continue_counts:
  "error_counts (trk (snd (should_continue E et th win w))) =
     (if dict_has (error_counts (trk w)) et
         \<and> \<not> dict_get (error_counts (trk w)) et 0 < th
         \<and> win < time_time E (steps w) - dict_get (last_error_time (trk w)) et 0
      then AList.update et 0 (error_counts (trk w))
      else error_counts (trk w))"
  by (simp add: should_continue_def Let_def)


text \<open>
  C6. \<open>should_continue\<close> returns true exactly when the type is not a key of the
  error counts (never logged), or its count is below the threshold, or more than
  \<open>window_seconds\<close> lie between the type's last error and the clock reading; it returns
  false in every other case. The count of the type is reset to zero exactly when the call
  gets as far as the third test and that test succeeds, and the counts are unchanged
  otherwise. In particular, after five errors of a type were logged on a tracker that had
  none of that type, a call with threshold 5 returns false as long as the clock reads at
  most \<open>window_seconds\<close> past the fifth error (logged at step \<open>steps v + 16\<close>), and
  once it reads more the call returns true and leaves the count at 0.
\<close>

theorem should_continue_semantics:
  "fst (should_continue E et th win w) =
     (\<not> dict_has (error_counts (trk w)) et
      \<or> dict_get (error_counts (trk w)) et 0 < th
      \<or> win < time_time E (steps w) - dict_get (last_error_time (trk w)) et 0)
   \<and> error_counts (trk (snd (should_continue E et th win w))) =
     (if dict_has (error_counts (trk w)) et
         \<and> \<not> dict_get (error_counts (trk w)) et 0 < th
         \<and> win < time_time E (steps w) - dict_get (last_error_time (trk w)) et 0
      then AList.update et 0 (error_counts (trk w))
      else error_counts (trk w))
   \<and> (\<forall>(v::world) ds (u::world).
         \<not> dict_has (error_counts (trk v)) et \<and> length ds = 5
         \<and> trk u = trk (log_errors E et ds v) \<longrightarrow>
           fst (should_continue E et 5 win u)
             = (win < time_time E (steps u) - time_time E (steps v + 16))
           \<and> (win < time_time E (steps u) - time_time E (steps v + 16) \<longrightarrow>
                 dict_get (error_counts (trk (snd (should_continue E et 5 win u)))) et 0 = 0))"
proof (intro conjI allI impI)
  show "fst (should_continue E et th win w) =
     (\<not> dict_has (error_counts (trk w)) et
      \<or> dict_get (error_counts (trk w)) et 0 < th
      \<or> win < time_time E (steps w) - dict_get (last_error_time (trk w)) et 0)"
    by (rule should_continue_result)
next
  show "error_counts (trk (snd (should_continue E et th win w))) =
     (if dict_has (error_counts (trk w)) et
         \<and> \<not> dict_get (error_counts (trk w)) et 0 < th
         \<and> win < time_time E (steps w) - dict_get (last_error_time (trk w)) et 0
      then AList.update et 0 (error_counts (trk w))
      else error_counts (trk w))"
    by (rule should_continue_counts)
next
  fix v u :: world and ds :: "string list"
  assume a: "\<not> dict_has (error_counts (trk v)) et \<and> length ds = 5
         \<and> trk u = trk (log_errors E et ds v)"
  then have ne: "ds \<noteq> []" by auto
  from a have c0: "dict_get (error_counts (trk v)) et 0 = 0"
    by (simp add: dict_has_def dict_get_def)
  have has: "dict_has (error_counts (trk u)) et"
    using a log_errors_has[OF ne] by simp
  have cnt: "dict_get (error_counts (trk u)) et 0 = 5"
    using a c0 log_errors_count[of E et ds v] by simp
  have lst: "dict_get (last_error_time (trk u)) et 0 = time_time E (steps v + 16)"
    using a log_errors_last[OF ne, of E et v] by simp
  show r: "fst (should_continue E et 5 win u)
             = (win < time_time E (steps u) - time_time E (steps v + 16))"
    by (simp add: should_continue_result has cnt lst)
  assume "win < time_time E (steps u) - time_time E (steps v + 16)"
  then show "dict_get (error_counts (trk (snd (should_continue E et 5 win u)))) et 0 = 0"
    by (simp add: should_continue_counts has cnt lst dict_get_update)
qed

theorem should_continue_semantics_witness:
  "\<not> dict_has (error_counts (trk w0)) ''rate_limit''
   \<and> length [''a'', ''b'', ''c'', ''d'', ''e''] = 5
   \<and> fst (should_continue E0 ''rate_limit'' 5 60
                (log_errors E0 ''rate_limit'' [''a'', ''b'', ''c'', ''d'', ''e''] w0)) = False
   \<and> fst (should_continue E0 ''rate_limit'' 5 60
                ((log_errors E0 ''rate_limit'' [''a'', ''b'', ''c'', ''d'', ''e''] w0)\<lparr>steps := 100\<rparr>)) = True
   \<and> dict_get (error_counts (trk (snd (should_continue E0 ''rate_limit'' 5 60
                ((log_errors E0 ''rate_limit'' [''a'', ''b'', ''c'', ''d'', ''e''] w0)\<lparr>steps := 100\<rparr>)))))
         ''rate_limit'' 0 = 0"
proof -
  let ?ds = "[''a'', ''b'', ''c'', ''d'', ''e'']"
  let ?w5 = "log_errors E0 ''rate_limit'' ?ds w0"
  have h: "\<not> dict_has (error_counts (trk w0)) ''rate_limit''"
    by (simp add: w0_def APIErrorTracker_def dict_has_def)
  have s0: "steps w0 = 0" by (simp add: w0_def)
  have s5: "steps ?w5 = 20" unfolding log_errors_steps s0 by simp
  have t: "\<And>k. time_time E0 k = 1000 + real k" by (simp add: E0_def)
  note T = should_continue_semantics[of E0 "''rate_limit''" 5 60 w0, THEN conjunct2, THEN conjunct2, rule_format]
  have a: "fst (should_continue E0 ''rate_limit'' 5 60 ?w5) = False"
    using T[of w0 ?ds ?w5] h by (simp add: s0 t log_error_steps)
  have b: "fst (should_continue E0 ''rate_limit'' 5 60 (?w5\<lparr>steps := 100\<rparr>)) = True
     \<and> dict_get (error_counts (trk (snd (should_continue E0 ''rate_limit'' 5 60 (?w5\<lparr>steps := 100\<rparr>))))) ''rate_limit'' 0 = 0"
    using T[of w0 ?ds "?w5\<lparr>steps := 100\<rparr>"] h by (simp add: s0 t)
  show ?thesis using h a b by simp
qed


text \<open>
  C8, as stated, fails: \<open>log_error\<close> does not guard the append, so with a disk that
  refuses it the call raises \<open>OSError\<close>.
\<close>

theorem log_error_raises:
  "fst (log_error E_full_disk ''rate_limit'' ''quota'' ''openai'' w0) = Inl OSError"
  by (simp add: log_error_def Let_def E_full_disk_def E0_def)

text \<open>
  C8, amended. For every error type, details and api type, \<open>log_error\<close> increments the
  type's count and records the clock reading as its last-error time. When the append
  succeeds, the call returns the entry and the daily file
  \<open><log_dir>/<api_type>_errors_<date>.log\<close> has grown by exactly one line, the JSON
  encoding of \<open>{timestamp, api_type, error_type, details, count}\<close>; when the append
  fails, \<open>OSError\<close> reaches the caller and no file has changed.
\<close>

theorem log_error_effect:
  "(let r = log_error E et d api w;
        k = steps w;
        n = dict_get (error_counts (trk w)) et 0 + 1;
        entry = log_entry (strftime E (k + 1) ''%Y-%m-%d %H:%M:%S'') api et d n;
        file = log_filename (log_dir (trk w)) api (strftime E (k + 2) ''%Y-%m-%d'')
    in dict_get (error_counts (trk (snd r))) et 0 = n
       \<and> dict_get (last_error_time (trk (snd r))) et 0 = time_time E k
       \<and> (if append_ok E (k + 3) file
           then fst r = Inr entry
                \<and> fs (snd r) = (fs w)(file := fs w file @ [json_dumps E entry @ [CHR 0x0A]])
           else fst r = Inl OSError \<and> fs (snd r) = fs w))"
  by (simp add: log_error_def Let_def dict_get_update)

lemma should_continue_last:
  "last_error_time (trk (snd (should_continue E et th win w))) = last_error_time (trk w)
   \<or> (\<not> dict_has (last_error_time (trk w)) et
       \<and> last_error_time (trk (snd (should_continue E et th win w)))
           = AList.update et 0 (last_error_time (trk w)))"
  by (simp add: should_continue_def Let_def)

lemma tracker_reachable_inv:
  "tracker_reachable E w L \<Longrightarrow>
     distinct (map fst (last_error_time (trk w)))
     \<and> L = {et. 0 < dict_get (last_error_time (trk w)) et 0}"
proof (induction rule: tracker_reachable.induct)
  case (fresh w dir)
  then show ?case by (simp add: APIErrorTracker_def dict_get_def)
next
  case (elsewhere w L w')
  then show ?case by simp
next
  case (logged_error w L error_type details api_type)
  then show ?case
    by (auto simp: log_error_last dict_get_update distinct_update)
next
  case (logged_success w L operation_type)
  then show ?case by (simp add: log_success_def Let_def)
next
  case (checked w L error_type threshold window_seconds)
  from should_continue_last[of E error_type threshold window_seconds w]
  show ?case
  proof
    assume "last_error_time (trk (snd (should_continue E error_type threshold window_seconds w)))
      = last_error_time (trk w)"
    with checked.IH show ?thesis by simp
  next
    assume a: "\<not> dict_has (last_error_time (trk w)) error_type
       \<and> last_error_time (trk (snd (should_continue E error_type threshold window_seconds w)))
           = AList.update error_type 0 (last_error_time (trk w))"
    then have "dict_get (last_error_time (trk w)) error_type 0 = 0"
      by (simp add: dict_has_def dict_get_def)
    with a checked.IH show ?thesis
      by (auto simp: dict_get_update distinct_update)
  qed
qed

lemma positive_keys:
  "distinct (map fst al) \<Longrightarrow>
     fst ` set (filter (\<lambda>(k, t). (0::real) < t) al) = {k. 0 < dict_get al k 0}"
proof (rule set_eqI)
  fix k
  assume d: "distinct (map fst al)"
  have "k \<in> fst ` set (filter (\<lambda>(k, t). 0 < t) al) \<longleftrightarrow> (\<exists>t. (k, t) \<in> set al \<and> 0 < t)"
    by force
  also have "\<dots> \<longleftrightarrow> (\<exists>t. map_of al k = Some t \<and> 0 < t)"
    using d by simp
  also have "\<dots> \<longleftrightarrow> 0 < dict_get al k 0"
    by (simp add: dict_get_def split: option.splits)
  finally show "k \<in> fst ` set (filter (\<lambda>(k, t). 0 < t) al) \<longleftrightarrow> k \<in> {k. 0 < dict_get al k 0}"
    by simp
qed

lemma summary_keys:
  "fst ` set (time_since_last_error (fst (get_error_summary E w)))
     = fst ` set (filter (\<lambda>(k, t). 0 < t) (last_error_time (trk w)))"
  by (force simp: get_error_summary_def Let_def image_iff)

text \<open>
  C10. \<open>get_error_summary\<close> leaves the tracker (error counts, success counts and
  last-error times) as it was; the summary's \<open>total_errors\<close> is the sum of the per-type
  error counts, its two count tables are the tracker's; and in every state the tracker
  can reach, the types with a seconds-since-last-error entry are exactly the types for
  which an error was logged.
\<close>

theorem get_error_summary_observes:
  "trk (snd (get_error_summary E w)) = trk w
   \<and> total_errors (fst (get_error_summary E w)) = sum_list (map snd (error_counts (trk w)))
   \<and> error_types (fst (get_error_summary E w)) = error_counts (trk w)
   \<and> summary_success_counts (fst (get_error_summary E w)) = success_counts (trk w)
   \<and> (\<forall>L. tracker_reachable E w L \<longrightarrow>
         fst ` set (time_since_last_error (fst (get_error_summary E w))) = L)"
proof (intro conjI allI impI)
  fix L assume "tracker_reachable E w L"
  from tracker_reachable_inv[OF this]
  have "distinct (map fst (last_error_time (trk w)))"
    and "L = {et. 0 < dict_get (last_error_time (trk w)) et 0}" by simp_all
  then show "fst ` set (time_since_last_error (fst (get_error_summary E w))) = L"
    unfolding summary_keys using positive_keys[of "last_error_time (trk w)"] by simp
qed (simp_all add: get_error_summary_def Let_def)

theorem get_error_summary_observes_witness:
  "tracker_reachable E0 (snd (log_error E0 ''rate_limit'' ''quota'' ''openai'' w0)) {''rate_limit''}
   \<and> map fst (time_since_last_error (fst (get_error_summary E0
         (snd (log_error E0 ''rate_limit'' ''quota'' ''openai'' w0))))) = [''rate_limit'']
   \<and> total_errors (fst (get_error_summary E0
         (snd (log_error E0 ''rate_limit'' ''quota'' ''openai'' w0)))) = 1"
proof -
  let ?w = "snd (log_error E0 ''rate_limit'' ''quota'' ''openai'' w0)"
  have f: "tracker_reachable E0 w0 {}"
    by (rule tracker_reachable.fresh[of _ "''./logs''"]) (simp add: w0_def)
  have r: "tracker_reachable E0 ?w {''rate_limit''}"
    using tracker_reachable.logged_error[OF f, of "''rate_limit''" "''quota''" "''openai''"]
    by (simp add: E0_def)
  have k: "map fst (time_since_last_error (fst (get_error_summary E0 ?w))) = [''rate_limit'']"
    by (simp add: get_error_summary_def log_error_def Let_def E0_def w0_def APIErrorTracker_def)
  from get_error_summary_observes[of E0 ?w] r
  have "total_errors (fst (get_error_summary E0 ?w)) = sum_list (map snd (error_counts (trk ?w)))"
    by simp
  then have "total_errors (fst (get_error_summary E0 ?w)) = 1"
    by (simp add: log_error_def Let_def w0_def APIErrorTracker_def dict_get_def)
  with r k show ?thesis by simp
qed

section \<open>The document-service client\<close>

lemma spaces_page_more:
  "page_results p = Some rs \<Longrightarrow> rs \<noteq> [] \<Longrightarrow> has_next_link p \<Longrightarrow> spaces_page p = Extend rs True"
  by (auto simp: page_results_def has_next_link_def spaces_page_def py_in_def py_iter_def
        dict_has_def dict_get_def split: json.splits option.splits)

lemma spaces_page_last:
  "page_results p = Some rs \<Longrightarrow> omits_next_link p \<Longrightarrow>
     spaces_page p = (if rs = [] then Break else Extend rs False)"
  by (auto simp: page_results_def omits_next_link_def spaces_page_def py_in_def py_iter_def
        dict_has_def dict_get_def split: json.splits option.splits)

lemma spaces_page_empty:
  "page_results p = Some [] \<Longrightarrow> spaces_page p = Break"
  by (auto simp: page_results_def spaces_page_def py_in_def py_iter_def
        dict_has_def dict_get_def split: json.splits option.splits)

lemma spaces_loop_run:
  assumes "\<forall>i<n. spaces_page (get_all_spaces http d (start + 100 * i) 100) = Extend (rs i) True"
  shows "spaces_loop http d acc start urls =
           spaces_loop http d (acc @ concat (map rs [0..<n])) (start + 100 * n)
             (urls @ map (\<lambda>i. spaces_url d 100 (start + 100 * i)) [0..<n])"
  using assms
proof (induction n)
  case 0
  then show ?case by simp
next
  case (Suc n)
  then have IH: "spaces_loop http d acc start urls =
           spaces_loop http d (acc @ concat (map rs [0..<n])) (start + 100 * n)
             (urls @ map (\<lambda>i. spaces_url d 100 (start + 100 * i)) [0..<n])"
    by simp
  from Suc.prems have st: "spaces_page (get_all_spaces http d (start + 100 * n) 100) = Extend (rs n) True"
    by simp
  have "spaces_loop http d (acc @ concat (map rs [0..<n])) (start + 100 * n)
             (urls @ map (\<lambda>i. spaces_url d 100 (start + 100 * i)) [0..<n])
        = spaces_loop http d ((acc @ concat (map rs [0..<n])) @ rs n) (start + 100 * n + 100)
             ((urls @ map (\<lambda>i. spaces_url d 100 (start + 100 * i)) [0..<n])
                @ [spaces_url d 100 (start + 100 * n)])"
    by (subst spaces_loop.simps) (simp add: st Let_def)
  moreover have "start + 100 * n + 100 = start + 100 * Suc n" by simp
  ultimately show ?case
    unfolding IH by (simp del: mult_Suc_right)
qed


lemma spaces_loop_stop:
  "spaces_page (get_all_spaces http d start 100) = Break \<Longrightarrow>
     spaces_loop http d acc start urls = Some (Inr acc, urls @ [spaces_url d 100 start])"
  "spaces_page (get_all_spaces http d start 100) = Extend items False \<Longrightarrow>
     spaces_loop http d acc start urls = Some (Inr (acc @ items), urls @ [spaces_url d 100 start])"
  by (subst spaces_loop.simps, simp add: Let_def)+

lemma url_simps:
  "spaces_url ''https://wiki'' 100 0 = ''https://wiki/wiki/api/v2/spaces?limit=100&start=0''"
  "spaces_url ''https://wiki'' 100 100 = ''https://wiki/wiki/api/v2/spaces?limit=100&start=100''"
  "spaces_url ''https://wiki'' 100 200 = ''https://wiki/wiki/api/v2/spaces?limit=100&start=200''"
  by (simp_all add: spaces_url_def str_nat.simps digit_char_def)

lemma all_less_3: "(\<forall>i<3. P i) \<longleftrightarrow> P 0 \<and> P (Suc 0) \<and> P 2"
  by (auto simp: less_Suc_eq numeral_3_eq_3 numeral_2_eq_2)

lemma upt3: "[0..<3] = [0, 1, 2]" "[0..<2] = [0, 1]"
  by (simp_all add: upt_rec)

text \<open>
  C2, as stated, fails: a page with an empty \<open>results\<close> list ends the loop even when it
  carries a \<open>next\<close> link. Three pages, each with a results list, only the last without
  the link, the second empty: the list returned is the first page's, not the concatenation
  of all three, and the third page is never requested.
\<close>

theorem get_all_spaces_list_stops_at_empty_page:
  "page_results page0 = Some [JStr ''A''] \<and> has_next_link page0
   \<and> page_results page1 = Some [] \<and> has_next_link page1
   \<and> page_results page2 = Some [JStr ''B''] \<and> omits_next_link page2
   \<and> get_all_spaces_list (serve [page0, page1, page2]) ''https://wiki''
       = Some (Inr [JStr ''A''],
               [''https://wiki/wiki/api/v2/spaces?limit=100&start=0'',
                ''https://wiki/wiki/api/v2/spaces?limit=100&start=100''])"
proof -
  have g0: "get_all_spaces (serve [page0, page1, page2]) ''https://wiki'' 0 100 = page0"
    and g1: "get_all_spaces (serve [page0, page1, page2]) ''https://wiki'' 100 100 = page1"
    by (simp_all add: get_all_spaces_def api_call_def serve_def url_simps upt3)
  have p0: "spaces_page page0 = Extend [JStr ''A''] True"
    and p1: "spaces_page page1 = Break"
    by (simp_all add: spaces_page_def page0_def page1_def py_in_def py_iter_def dict_has_def dict_get_def)
  have "get_all_spaces_list (serve [page0, page1, page2]) ''https://wiki''
       = Some (Inr [JStr ''A''],
               [''https://wiki/wiki/api/v2/spaces?limit=100&start=0'',
                ''https://wiki/wiki/api/v2/spaces?limit=100&start=100''])"
    unfolding get_all_spaces_list_def
    apply (subst spaces_loop.simps)
    apply (simp add: g0 p0 Let_def)
    apply (subst spaces_loop.simps)
    apply (simp add: g1 p1 Let_def url_simps)
    done
  then show ?thesis
    by (simp add: page_results_def has_next_link_def omits_next_link_def page0_def page1_def page2_def)
qed

text \<open>
  C2, amended. For every sequence of pages in which each page carries a results list,
  each page before the last has a non-empty one and a \<open>next\<close> link, and the last page has
  no \<open>next\<close> link, \<open>get_all_spaces_list\<close> terminates and returns the concatenation of
  all pages' results in order, having requested exactly the start offsets
  \<open>0, 100, 200, ...\<close> of these pages in ascending order and nothing beyond the last.
  When the first response is absent or its results list is empty, it returns the empty
  list after that one request.
\<close>

theorem get_all_spaces_list_pages:
  "(pages \<noteq> [] \<and> length rss = length pages
    \<and> (\<forall>i<length pages. http (spaces_url d 100 (100 * i)) = Response 200 (pages ! i)
                         \<and> page_results (pages ! i) = Some (rss ! i))
    \<and> (\<forall>i<length pages - 1. rss ! i \<noteq> [] \<and> has_next_link (pages ! i))
    \<and> omits_next_link (last pages)
    \<longrightarrow> get_all_spaces_list http d
          = Some (Inr (concat rss), map (\<lambda>i. spaces_url d 100 (100 * i)) [0..<length pages]))
   \<and> (api_call http (spaces_url d 100 0) = JNull
       \<or> page_results (api_call http (spaces_url d 100 0)) = Some []
    \<longrightarrow> get_all_spaces_list http d = Some (Inr [], [spaces_url d 100 0]))"
proof (intro conjI impI)
  assume a: "pages \<noteq> [] \<and> length rss = length pages
    \<and> (\<forall>i<length pages. http (spaces_url d 100 (100 * i)) = Response 200 (pages ! i)
                         \<and> page_results (pages ! i) = Some (rss ! i))
    \<and> (\<forall>i<length pages - 1. rss ! i \<noteq> [] \<and> has_next_link (pages ! i))
    \<and> omits_next_link (last pages)"
  define n where "n = length pages - 1"
  from a have len: "length pages = Suc n" "length rss = Suc n"
    by (simp_all add: n_def)
  have page: "get_all_spaces http d (100 * i) 100 = pages ! i" if "i < Suc n" for i
    using a that len by (simp add: get_all_spaces_def api_call_def)
  have res: "page_results (pages ! i) = Some (rss ! i)" if "i < Suc n" for i
    using a that len by simp
  have inner: "\<forall>i<n. spaces_page (get_all_spaces http d (0 + 100 * i) 100) = Extend ((!) rss i) True"
  proof (intro allI impI)
    fix i assume i: "i < n"
    then have "rss ! i \<noteq> []" "has_next_link (pages ! i)" using a by (simp_all add: n_def)
    with spaces_page_more[OF res[of i]] i show
      "spaces_page (get_all_spaces http d (0 + 100 * i) 100) = Extend (rss ! i) True"
      by (simp add: page)
  qed
  have lastp: "last pages = pages ! n" using len a by (simp add: last_conv_nth)
  have fin: "spaces_page (get_all_spaces http d (0 + 100 * n) 100)
               = (if rss ! n = [] then Break else Extend (rss ! n) False)"
    using spaces_page_last[OF res[of n]] a lastp by (simp add: page)
  have cc: "concat rss = concat (map ((!) rss) [0..<n]) @ rss ! n"
  proof -
    have "map ((!) rss) [0..<length rss] = rss" by (rule map_nth)
    then have "concat rss = concat (map ((!) rss) [0..<Suc n])" unfolding len by simp
    then show ?thesis by simp
  qed
  have "get_all_spaces_list http d =
          spaces_loop http d ([] @ concat (map ((!) rss) [0..<n])) (0 + 100 * n)
            ([] @ map (\<lambda>i. spaces_url d 100 (0 + 100 * i)) [0..<n])"
    unfolding get_all_spaces_list_def by (rule spaces_loop_run[OF inner])
  also have "\<dots> = Some (Inr (concat rss), map (\<lambda>i. spaces_url d 100 (100 * i)) [0..<Suc n])"
    using fin by (cases "rss ! n = []") (simp_all add: spaces_loop_stop cc)
  finally show "get_all_spaces_list http d
          = Some (Inr (concat rss), map (\<lambda>i. spaces_url d 100 (100 * i)) [0..<length pages])"
    by (simp add: len)
next
  assume "api_call http (spaces_url d 100 0) = JNull
       \<or> page_results (api_call http (spaces_url d 100 0)) = Some []"
  then have "spaces_page (get_all_spaces http d 0 100) = Break"
    by (auto simp: get_all_spaces_def spaces_page_empty) (simp add: spaces_page_def)
  then show "get_all_spaces_list http d = Some (Inr [], [spaces_url d 100 0])"
    by (simp add: get_all_spaces_list_def spaces_loop_stop)
qed

theorem get_all_spaces_list_pages_witness:
  "get_all_spaces_list (serve [page0, page1', page2]) ''https://wiki''
     = Some (Inr [JStr ''A'', JStr ''C'', JStr ''D'', JStr ''B''],
             [''https://wiki/wiki/api/v2/spaces?limit=100&start=0'',
              ''https://wiki/wiki/api/v2/spaces?limit=100&start=100'',
              ''https://wiki/wiki/api/v2/spaces?limit=100&start=200''])
   \<and> get_all_spaces_list (serve []) ''https://wiki''
     = Some (Inr [], [''https://wiki/wiki/api/v2/spaces?limit=100&start=0''])"
proof -
  let ?pages = "[page0, page1', page2]"
  let ?rss = "[[JStr ''A''], [JStr ''C'', JStr ''D''], [JStr ''B'']]"
  let ?d = "''https://wiki''"
  have h: "\<forall>i<length ?pages. serve ?pages (spaces_url ?d 100 (100 * i)) = Response 200 (?pages ! i)
                         \<and> page_results (?pages ! i) = Some (?rss ! i)"
  proof (intro allI impI)
    fix i assume "i < length ?pages"
    then consider "i = 0" | "i = 1" | "i = 2" by force
    then show "serve ?pages (spaces_url ?d 100 (100 * i)) = Response 200 (?pages ! i)
                         \<and> page_results (?pages ! i) = Some (?rss ! i)"
      by cases
        (simp_all add: serve_def url_simps upt3 page_results_def page0_def page1'_def page2_def)
  qed
  have n: "\<forall>i<length ?pages - 1. ?rss ! i \<noteq> [] \<and> has_next_link (?pages ! i)"
  proof (intro allI impI)
    fix i assume "i < length ?pages - 1"
    then consider "i = 0" | "i = 1" by force
    then show "?rss ! i \<noteq> [] \<and> has_next_link (?pages ! i)"
      by cases (simp_all add: has_next_link_def page0_def page1'_def)
  qed
  have l: "omits_next_link (last ?pages)"
    by (simp add: omits_next_link_def page2_def)
  have a: "get_all_spaces_list (serve ?pages) ?d
     = Some (Inr (concat ?rss), map (\<lambda>i. spaces_url ?d 100 (100 * i)) [0..<length ?pages])"
    using get_all_spaces_list_pages[of ?pages ?rss "serve ?pages" ?d] h n l by simp
  have b: "get_all_spaces_list (serve []) ?d = Some (Inr [], [spaces_url ?d 100 0])"
    using get_all_spaces_list_pages[of "[]" "[]" "serve []" ?d]
    by (simp add: api_call_def serve_def)
  from a b show ?thesis by (simp add: url_simps upt3)
qed

text \<open>
  C9: the claim's last case fails on the code. For a \<open>200\<close> answer that is a non-empty
  object without a \<open>results\<close> list, \<open>fetch_labels\<close> returns \<open>False\<close>, not \<open>None\<close>.
\<close>

theorem fetch_labels_missing_results:
  "fetch_labels http_unlabelled ''https://wiki'' ''42'' = Inr (Some False)"
  by (simp add: fetch_labels_def api_call_def http_unlabelled_def py_iter_def dict_get_def)



section \<open>The chat client\<close>

text \<open>
  C5: the schedule of the claim fails on the code. When every attempt raises a
  rate-limit error, the waits before retries 1, 2 and 3 are 10, 20 and 40 seconds: four
  requests are made, no fourth retry, and the traffic apology is returned.
\<close>

theorem chat_backoff_waits:
  "get_chat_completion_messages E0 [(''user'', ''hello'')] ''gpt-3.5-turbo-0125'' 0 w0
     = (Inr (Some ''I'm sorry, but I'm currently experiencing high traffic. Please try again in a few minutes.''),
        w0\<lparr>slept := [10, 20, 40], chat_requests := 4, steps := 4\<rparr>)"
  by (simp add: get_chat_completion_messages_def chat_loop.simps E0_def w0_def sleep_def Let_def)

lemma chat_loop_rate_limited:
  assumes "\<forall>k. chat_completions_create E k messages model_chat temperature = RateLimitError"
  shows "chat_loop E messages model_chat temperature 3 0 w
     = (Inr (Some ''I'm sorry, but I'm currently experiencing high traffic. Please try again in a few minutes.''),
        w\<lparr>slept := slept w @ [10, 20, 40], chat_requests := chat_requests w + 4, steps := steps w + 4\<rparr>)"
  using assms by (simp add: chat_loop.simps sleep_def Let_def)

section \<open>Cleaning\<close>

lemma cell_at_update: "cell_at (AList.update k v r) c = (if c = k then v else cell_at r c)"
  by (simp add: cell_at_def dict_get_update)

lemma map_of_rename:
  "b \<notin> fst ` set r \<Longrightarrow>
     map_of (map (\<lambda>(c, x). (if c = a then b else c, x)) r) k
       = (if k = b then map_of r a else if k = a then None else map_of r k)"
proof (induction r)
  case Nil
  then show ?case by simp
next
  case (Cons p r)
  obtain c x where p: "p = (c, x)" by (cases p)
  from Cons.prems p have cb: "c \<noteq> b" and nb: "b \<notin> fst ` set r" by auto
  from Cons.IH[OF nb] cb show ?case
    by (auto simp: p)
qed

lemma cell_at_rename:
  "b \<notin> fst ` set r \<Longrightarrow> b \<noteq> a \<Longrightarrow>
     cell_at (map (\<lambda>(c, x). (if c = a then b else c, x)) r) k
       = (if k = b then cell_at r a else if k = a then CNaN else cell_at r k)"
  by (simp add: cell_at_def dict_get_def map_of_rename)

lemma count_list_rename:
  "distinct cs \<Longrightarrow> b \<notin> set cs \<Longrightarrow>
     count_list (map (\<lambda>c. if c = a then b else c) cs) b = (if a \<in> set cs then 1 else 0)"
proof (induction cs)
  case Nil
  then show ?case by simp
next
  case (Cons c cs)
  then show ?case by (cases "c = a") auto
qed

lemma clean_one_eq:
  assumes "''source'' \<notin> fst ` set r"
  shows "clean_one E r = cleaned_row E r"
proof -
  let ?r1 = "AList.update ''id'' (CStr (str_cell E (cell_at r ''id''))) r"
  let ?r3 = "map (\<lambda>(c, x). (if c = ''tiny_link'' then ''source'' else c, x)) ?r1"
  from assms have k: "''source'' \<notin> fst ` set ?r1"
    by (simp add: update_keys flip: set_map)
  have i: "cell_at ?r3 ''id'' = CStr (str_cell E (cell_at r ''id''))"
    by (simp add: cell_at_rename[OF k] cell_at_update)
  have so: "cell_at ?r3 ''source'' = cell_at r ''tiny_link''"
    by (simp add: cell_at_rename[OF k] cell_at_update)
  have co: "cell_at ?r3 ''content'' = cell_at r ''content''"
    by (simp add: cell_at_rename[OF k] cell_at_update)
  have m: "metadata_of E ?r3 = CStr (json_dumps E (JObj [(''source'', cell_json (cell_at r ''tiny_link'')),
                                              (''text'', cell_json (cell_at r ''content''))]))"
    unfolding metadata_of_def so co ..
  have "cell_at (AList.update ''metadata'' (metadata_of E ?r3) ?r3) ''id'' = cell_at ?r3 ''id''"
    by (simp add: cell_at_update)
  moreover have "cell_at (AList.update ''metadata'' (metadata_of E ?r3) ?r3) ''metadata'' = metadata_of E ?r3"
    by (simp add: cell_at_update)
  ultimately show ?thesis
    unfolding clean_one_def Let_def cleaned_row_def by (simp only: i m)
qed

lemma clean_rows:
  assumes "\<forall>r\<in>set rs. ''source'' \<notin> fst ` set r"
  shows "map (\<lambda>r. map (\<lambda>c. (c, cell_at r c)) [''id'', ''metadata''])
           (map (\<lambda>r. AList.update ''metadata'' (metadata_of E r) r)
              (map (map (\<lambda>(c, x). (if c = ''tiny_link'' then ''source'' else c, x)))
                 (map (\<lambda>r. AList.update ''id'' (CStr (str_cell E (cell_at r ''id''))) r) rs)))
         = map (cleaned_row E) rs"
proof -
  have "map (\<lambda>r. map (\<lambda>c. (c, cell_at r c)) [''id'', ''metadata''])
           (map (\<lambda>r. AList.update ''metadata'' (metadata_of E r) r)
              (map (map (\<lambda>(c, x). (if c = ''tiny_link'' then ''source'' else c, x)))
                 (map (\<lambda>r. AList.update ''id'' (CStr (str_cell E (cell_at r ''id''))) r) rs)))
        = map (clean_one E) rs"
    by (simp add: clean_one_def Let_def comp_def)
  also have "\<dots> = map (cleaned_row E) rs"
    using assms by (intro map_cong refl clean_one_eq) simp
  finally show ?thesis .
qed

text \<open>
  C3, amended. For every well-formed input frame (its column labels are pairwise
  distinct and every row holds one cell for each column, in the order of the columns)
  having columns \<open>id\<close>, \<open>tiny_link\<close> and \<open>content\<close> and no column named
  \<open>source\<close>, \<open>clean_data_pinecone_schema\<close> drops exactly the rows whose \<open>content\<close> is absent (\<open>None\<close> or \<open>NaN\<close>) or the empty
  string; every surviving row has only the columns \<open>id\<close>, coerced to a string, and
  \<open>metadata\<close>, the JSON encoding of the object with \<open>source\<close> the row's \<open>tiny_link\<close>
  and \<open>text\<close> the row's \<open>content\<close>. If no row survives, or a required column is
  missing, the result is the empty frame with columns \<open>id\<close> and \<open>metadata\<close>.
\<close>

theorem clean_data_pinecone_schema_rows:
  "(wf_frame df0 \<and> {''id'', ''tiny_link'', ''content''} \<subseteq> set (columns df0)
      \<and> ''source'' \<notin> set (columns df0) \<longrightarrow>
      clean_data_pinecone_schema E df0
        = Inr \<lparr>columns = [''id'', ''metadata''],
               rows = map (cleaned_row E) (filter has_content (rows df0))\<rparr>)
   \<and> (\<not> {''id'', ''tiny_link'', ''content''} \<subseteq> set (columns df0) \<longrightarrow>
      clean_data_pinecone_schema E df0 = Inr \<lparr>columns = [''id'', ''metadata''], rows = []\<rparr>)"
proof (intro conjI impI)
  assume a: "wf_frame df0 \<and> {''id'', ''tiny_link'', ''content''} \<subseteq> set (columns df0)
      \<and> ''source'' \<notin> set (columns df0)"
  let ?kept = "filter has_content (rows df0)"
  have f: "filter (\<lambda>r. notna (cell_at r ''content'') \<and> cell_at r ''content'' \<noteq> CStr []) (rows df0) = ?kept"
    by (rule filter_cong) (auto simp: has_content_def notna_def)
  from a have keys: "\<forall>r\<in>set ?kept. ''source'' \<notin> fst ` set r"
    by (auto simp: wf_frame_def list_all_iff simp flip: set_map)
  from a have c: "\<not> 1 < count_list (map (\<lambda>c. if c = ''tiny_link'' then ''source'' else c) (columns df0)) ''source''"
    using count_list_rename[of "columns df0" "''source''" "''tiny_link''"]
    by (simp add: wf_frame_def)
  from a have cols: "columns df0 \<noteq> []" "''id'' \<in> set (columns df0)" by auto
  show "clean_data_pinecone_schema E df0
        = Inr \<lparr>columns = [''id'', ''metadata''], rows = map (cleaned_row E) ?kept\<rparr>"
  proof (cases "?kept = []")
    case True
    with a f show ?thesis
      by (simp add: clean_data_pinecone_schema_def filter_rows_def is_empty_def empty_frame_def)
  next
    case False
    let ?df1 = "filter_rows (\<lambda>r. notna (cell_at r ''content'') \<and> cell_at r ''content'' \<noteq> CStr []) df0"
    let ?df3 = "rename_column ''tiny_link'' ''source''
                  (set_column ''id'' (\<lambda>r. CStr (str_cell E (cell_at r ''id''))) ?df1)"
    have e: "\<not> is_empty ?df1"
      using False f cols by (simp add: is_empty_def filter_rows_def)
    have c3: "\<not> 1 < count_list (columns ?df3) ''source''"
      using c cols by (simp add: rename_column_def set_column_def filter_rows_def)
    have "rows (select_columns [''id'', ''metadata''] (set_column ''metadata'' (metadata_of E) ?df3))
            = map (\<lambda>r. map (\<lambda>c. (c, cell_at r c)) [''id'', ''metadata''])
               (map (\<lambda>r. AList.update ''metadata'' (metadata_of E r) r)
                 (map (map (\<lambda>(c, x). (if c = ''tiny_link'' then ''source'' else c, x)))
                   (map (\<lambda>r. AList.update ''id'' (CStr (str_cell E (cell_at r ''id''))) r) ?kept)))"
      unfolding select_columns_def set_column_def rename_column_def filter_rows_def f
      by (simp del: list.map)
    then have r: "rows (select_columns [''id'', ''metadata''] (set_column ''metadata'' (metadata_of E) ?df3))
            = map (cleaned_row E) ?kept"
      unfolding clean_rows[OF keys] .
    have cs: "columns (select_columns [''id'', ''metadata''] (set_column ''metadata'' (metadata_of E) ?df3))
            = [''id'', ''metadata'']"
      by (simp add: select_columns_def)
    have "clean_data_pinecone_schema E df0
            = Inr (select_columns [''id'', ''metadata''] (set_column ''metadata'' (metadata_of E) ?df3))"
      using a e c3 unfolding clean_data_pinecone_schema_def Let_def by simp
    also have "select_columns [''id'', ''metadata''] (set_column ''metadata'' (metadata_of E) ?df3)
            = \<lparr>columns = [''id'', ''metadata''], rows = map (cleaned_row E) ?kept\<rparr>"
      using r cs by (cases "select_columns [''id'', ''metadata''] (set_column ''metadata'' (metadata_of E) ?df3)") simp
    finally show ?thesis .
  qed
next
  assume "\<not> {''id'', ''tiny_link'', ''content''} \<subseteq> set (columns df0)"
  then show "clean_data_pinecone_schema E df0 = Inr \<lparr>columns = [''id'', ''metadata''], rows = []\<rparr>"
    by (simp add: clean_data_pinecone_schema_def empty_frame_def)
qed

text \<open>
  C3, as stated, fails on a frame that has the three columns and also a column named
  \<open>source\<close>, a frame that passes the guard of the function, which only tests that the
  three columns are among the columns of the frame: renaming \<open>tiny_link\<close> gives two columns with that label,
  \<open>row['source']\<close> is then a \<open>Series\<close>, and \<open>json.dumps\<close> raises \<open>TypeError\<close>.
\<close>

theorem clean_data_pinecone_schema_source_clash:
  "clean_data_pinecone_schema E1 csv_with_source = Inl TypeError"
  by (simp add: clean_data_pinecone_schema_def csv_with_source_def filter_rows_def is_empty_def
        Let_def set_column_def rename_column_def cell_at_def dict_get_def notna_def)

theorem clean_data_pinecone_schema_rows_witness:
  "wf_frame csv1 \<and> {''id'', ''tiny_link'', ''content''} \<subseteq> set (columns csv1)
   \<and> ''source'' \<notin> set (columns csv1)
   \<and> clean_data_pinecone_schema E1 csv1
       = Inr \<lparr>columns = [''id'', ''metadata''],
              rows = [[(''id'', CStr ''11''), (''metadata'', CStr ''alpha'')],
                      [(''id'', CStr ''p14''), (''metadata'', CStr ''delta'')]]\<rparr>
   \<and> clean_data_pinecone_schema E1 (empty_frame [''id'', ''content''])
       = Inr \<lparr>columns = [''id'', ''metadata''], rows = []\<rparr>"
proof -
  have h: "wf_frame csv1 \<and> {''id'', ''tiny_link'', ''content''} \<subseteq> set (columns csv1)
      \<and> ''source'' \<notin> set (columns csv1)"
    by (simp add: wf_frame_def csv1_def)
  have r: "map (cleaned_row E1) (filter has_content (rows csv1))
      = [[(''id'', CStr ''11''), (''metadata'', CStr ''alpha'')],
         [(''id'', CStr ''p14''), (''metadata'', CStr ''delta'')]]"
    by (simp add: csv1_def has_content_def cleaned_row_def cell_at_def dict_get_def E1_def E0_def
          str_cell_def str_int_def str_nat.simps digit_char_def cell_json_def)
  from clean_data_pinecone_schema_rows[of csv1 E1] h r
  have a: "clean_data_pinecone_schema E1 csv1
       = Inr \<lparr>columns = [''id'', ''metadata''],
              rows = [[(''id'', CStr ''11''), (''metadata'', CStr ''alpha'')],
                      [(''id'', CStr ''p14''), (''metadata'', CStr ''delta'')]]\<rparr>"
    by simp
  from clean_data_pinecone_schema_rows[of "empty_frame [''id'', ''content'']" E1]
  have b: "clean_data_pinecone_schema E1 (empty_frame [''id'', ''content''])
       = Inr \<lparr>columns = [''id'', ''metadata''], rows = []\<rparr>"
    by (simp add: empty_frame_def)
  from h a b show ?thesis by simp
qed

section \<open>Embedding a batch\<close>

lemma should_continue_closed:
  "circuit_closed w \<Longrightarrow> should_continue E ''rate_limit'' 5 60 w = (True, w)"
  by (auto simp: circuit_closed_def should_continue_def Let_def)

lemma log_error_returns:
  "\<forall>k p. append_ok E k p \<Longrightarrow> \<exists>entry. fst (log_error E et d api w) = Inr entry"
  by (simp add: log_error_def Let_def)

lemma log_error_closed:
  "et \<noteq> ''rate_limit'' \<Longrightarrow> circuit_closed (snd (log_error E et d api w)) = circuit_closed w"
  by (simp add: circuit_closed_def log_error_counts dict_has_update dict_get_update)

lemma log_failed_ok:
  assumes "\<forall>k p. append_ok E k p"
  shows "log_failed E et s w =
     Finished (s\<lparr>wld := snd (log_error E et (diagnostic E (steps w)) ''openai'' w),
                failed_embeddings := failed_embeddings s + 1\<rparr>)"
proof -
  obtain entry where "fst (log_error E et (diagnostic E (steps w)) ''openai'' w) = Inr entry"
    using log_error_returns[OF assms] by blast
  then show ?thesis
    by (cases "log_error E et (diagnostic E (steps w)) ''openai'' w") (simp add: log_failed_def)
qed

lemma process_row_skipped:
  assumes "\<forall>k p. append_ok E k p" and "decode_fails E row \<or> lacks_text E row"
  shows "process_row E m (i, row) s = Finished (skipped E row s)"
proof -
  from assms(2) obtain c where c: "cell_at row ''metadata'' = CStr c"
    by (auto simp: decode_fails_def lacks_text_def split: cell.splits)
  show ?thesis
  proof (cases "json_loads E c")
    case None
    then have "decode_fails E row" by (simp add: decode_fails_def c)
    then show ?thesis
      using None c by (simp add: process_row_def log_failed_ok[OF assms(1)] skipped_def skip_type_def)
  next
    case (Some meta)
    then have nd: "\<not> decode_fails E row" by (simp add: decode_fails_def c)
    with assms(2) have "lacks_text E row" by simp
    then obtain kvs where k: "meta = JObj kvs" "\<not> truthy (dict_get kvs ''text'' (JStr []))"
      using Some c by (auto simp: lacks_text_def split: json.splits)
    then show ?thesis
      using Some c nd
      by (simp add: process_row_def log_failed_ok[OF assms(1)] skipped_def skip_type_def Let_def)
  qed
qed

lemma create_embeddings_text:
  "create_embeddings E (JStr t) m w =
     (embeddings_create E (steps w) (JStr (if 8000 < length t then take 8000 t else t)) m,
      w\<lparr>requests := requests w @ [(JStr (if 8000 < length t then take 8000 t else t), m)],
        steps := steps w + 1\<rparr>)"
  by (simp add: create_embeddings_def Let_def)

lemma embed_row_returned:
  assumes "circuit_closed (wld s)"
    and "embeddings_create E (steps (wld s)) (JStr (if 8000 < length t then take 8000 t else t)) m = Returned v"
  shows "embed_row E m i (JStr t) 3 0 s =
     Finished (s\<lparr>df := set_cell i ''values'' (CList v) (df s),
                wld := log_success ''embedding_generation''
                  ((sleep (1 / 10) (wld s))
                     \<lparr>requests := requests (wld s) @ [(JStr (if 8000 < length t then take 8000 t else t), m)],
                       steps := steps (wld s) + 1\<rparr>),
                successful_embeddings := successful_embeddings s + 1\<rparr>)"
  using assms
  by (subst embed_row.simps)
     (simp add: should_continue_closed create_embeddings_text sleep_def)

lemma process_row_embedded:
  assumes "circuit_closed (wld s)" and "has_text E row"
    and "\<forall>k input. \<exists>v. embeddings_create E k input m = Returned v"
  shows "\<exists>v s'. process_row E m (i, row) s = Finished s'
           \<and> df s' = set_cell i ''values'' (CList v) (df s)
           \<and> circuit_closed (wld s')"
proof -
  from assms(2) obtain c kvs t where c: "cell_at row ''metadata'' = CStr c"
      and l: "json_loads E c = Some (JObj kvs)"
      and t: "dict_get kvs ''text'' (JStr []) = JStr t" "t \<noteq> []"
    by (auto simp: has_text_def split: cell.splits option.splits json.splits)
  from assms(3) obtain v where
    v: "embeddings_create E (steps (wld s)) (JStr (if 8000 < length t then take 8000 t else t)) m = Returned v"
    by blast
  have "process_row E m (i, row) s = embed_row E m i (JStr t) 3 0 s"
    by (simp add: process_row_def c l t Let_def)
  also note embed_row_returned[OF assms(1) v]
  finally show ?thesis
    using assms(1) by (auto simp: circuit_closed_def log_success_def sleep_def Let_def)
qed

lemma skipped_closed: "circuit_closed (wld (skipped E row s)) = circuit_closed (wld s)"
  by (simp add: skipped_def skip_type_def log_error_closed)

lemma skipped_df: "df (skipped E row s) = df s"
  by (simp add: skipped_def)

lemma process_rows_batch:
  assumes "\<forall>k p. append_ok E k p"
    and "\<forall>k input. \<exists>v. embeddings_create E k input m = Returned v"
  shows "circuit_closed (wld s) \<Longrightarrow> distinct (map fst irs) \<Longrightarrow>
     \<forall>(i, row)\<in>set irs. decode_fails E row \<or> lacks_text E row \<or> has_text E row \<Longrightarrow>
     \<exists>s'. process_rows E m irs s = Finished s'
        \<and> circuit_closed (wld s')
        \<and> columns (df s') = columns (df s)
        \<and> length (rows (df s')) = length (rows (df s))
        \<and> (\<forall>j<length (rows (df s)).
              if \<exists>row. (j, row) \<in> set irs \<and> has_text E row
              then \<exists>v. rows (df s') ! j = AList.update ''values'' (CList v) (rows (df s) ! j)
              else rows (df s') ! j = rows (df s) ! j)"
proof (induction irs arbitrary: s)
  case Nil
  then show ?case by simp
next
  case (Cons ir irs)
  obtain i row where ir: "ir = (i, row)" by (cases ir)
  from Cons.prems ir have d: "distinct (map fst irs)" and ni: "i \<notin> fst ` set irs"
    and rest: "\<forall>(i, row)\<in>set irs. decode_fails E row \<or> lacks_text E row \<or> has_text E row"
    and kind: "decode_fails E row \<or> lacks_text E row \<or> has_text E row"
    by auto
  have excl: "has_text E row \<Longrightarrow> \<not> (decode_fails E row \<or> lacks_text E row)"
    by (auto simp: has_text_def decode_fails_def lacks_text_def split: cell.splits option.splits json.splits)
  show ?case
  proof (cases "has_text E row")
    case True
    from process_row_embedded[OF Cons.prems(1) True assms(2), of i]
    obtain v s1 where s1: "process_row E m (i, row) s = Finished s1"
      "df s1 = set_cell i ''values'' (CList v) (df s)" "circuit_closed (wld s1)" by blast
    from Cons.IH[OF s1(3) d rest] obtain s' where s': "process_rows E m irs s1 = Finished s'"
      "circuit_closed (wld s')" "columns (df s') = columns (df s1)"
      "length (rows (df s')) = length (rows (df s1))"
      "\<forall>j<length (rows (df s1)).
              if \<exists>row. (j, row) \<in> set irs \<and> has_text E row
              then \<exists>v. rows (df s') ! j = AList.update ''values'' (CList v) (rows (df s1) ! j)
              else rows (df s') ! j = rows (df s1) ! j"
      by blast
    have len: "length (rows (df s1)) = length (rows (df s))" and cols: "columns (df s1) = columns (df s)"
      by (simp_all add: s1(2) set_cell_def)
    have r1: "rows (df s1) ! j = (if j = i then AList.update ''values'' (CList v) (rows (df s) ! j)
                                  else rows (df s) ! j)" if "j < length (rows (df s))" for j
      using that by (simp add: s1(2) set_cell_def nth_list_update)
    have "\<forall>j<length (rows (df s)).
              if \<exists>row'. (j, row') \<in> set (ir # irs) \<and> has_text E row'
              then \<exists>v. rows (df s') ! j = AList.update ''values'' (CList v) (rows (df s) ! j)
              else rows (df s') ! j = rows (df s) ! j"
    proof (intro allI impI)
      fix j assume j: "j < length (rows (df s))"
      show "if \<exists>row'. (j, row') \<in> set (ir # irs) \<and> has_text E row'
              then \<exists>v. rows (df s') ! j = AList.update ''values'' (CList v) (rows (df s) ! j)
              else rows (df s') ! j = rows (df s) ! j"
      proof (cases "j = i")
        case True
        then have "\<not> (\<exists>row. (j, row) \<in> set irs \<and> has_text E row)"
          using ni by force
        with s'(5) j len have "rows (df s') ! j = rows (df s1) ! j" by simp
        with r1[OF j] True \<open>has_text E row\<close> show ?thesis
          by (auto simp: ir)
      next
        case False
        then have e: "(\<exists>row'. (j, row') \<in> set (ir # irs) \<and> has_text E row')
                   = (\<exists>row. (j, row) \<in> set irs \<and> has_text E row)"
          by (auto simp: ir)
        from s'(5) j len have "if \<exists>row. (j, row) \<in> set irs \<and> has_text E row
              then \<exists>v. rows (df s') ! j = AList.update ''values'' (CList v) (rows (df s1) ! j)
              else rows (df s') ! j = rows (df s1) ! j" by simp
        with r1[OF j] False show ?thesis unfolding e by (auto split: if_splits)
      qed
    qed
    with s' s1 len cols show ?thesis by (simp add: ir)
  next
    case False
    with kind have sk: "decode_fails E row \<or> lacks_text E row" by simp
    have p: "process_row E m (i, row) s = Finished (skipped E row s)"
      by (rule process_row_skipped[OF assms(1) sk])
    have c1: "circuit_closed (wld (skipped E row s))"
      using Cons.prems(1) by (simp add: skipped_closed)
    from Cons.IH[OF c1 d rest, unfolded skipped_df] obtain s' where s': "process_rows E m irs (skipped E row s) = Finished s'"
      "circuit_closed (wld s')" "columns (df s') = columns (df s)"
      "length (rows (df s')) = length (rows (df s))"
      "\<forall>j<length (rows (df s)).
              if \<exists>row. (j, row) \<in> set irs \<and> has_text E row
              then \<exists>v. rows (df s') ! j = AList.update ''values'' (CList v) (rows (df s) ! j)
              else rows (df s') ! j = rows (df s) ! j"
      by blast
    have e: "(\<exists>row'. (j, row') \<in> set (ir # irs) \<and> has_text E row')
                   = (\<exists>row. (j, row) \<in> set irs \<and> has_text E row)" for j
      using False by (auto simp: ir)
    have fin: "\<forall>j<length (rows (df s)).
              if \<exists>row'. (j, row') \<in> set (ir # irs) \<and> has_text E row'
              then \<exists>v. rows (df s') ! j = AList.update ''values'' (CList v) (rows (df s) ! j)
              else rows (df s') ! j = rows (df s) ! j"
      unfolding e by (rule s'(5))
    have pr: "process_rows E m (ir # irs) s = Finished s'"
      using p s'(1) by (simp add: ir)
    from pr s'(2,3,4) fin show ?thesis by blast
  qed
qed

lemma kinds_values:
  "decode_fails E (AList.update ''values'' x r) = decode_fails E r"
  "lacks_text E (AList.update ''values'' x r) = lacks_text E r"
  "has_text E (AList.update ''values'' x r) = has_text E r"
  by (simp_all add: decode_fails_def lacks_text_def has_text_def cell_at_update)

lemma embedding_status_values:
  "embedding_status (AList.update ''values'' x r) = (if is_list x then CStr ''success'' else CStr ''not_processed'')"
  by (simp add: embedding_status_def dict_get_update)

lemma in_set_zip_upt:
  "length xs = n \<Longrightarrow> (j, r) \<in> set (zip [0..<n] xs) \<longleftrightarrow> j < n \<and> r = xs ! j"
  by (force simp: set_zip)

lemma generate_statuses:
  assumes ok: "\<forall>k p. append_ok E k p"
    and emb: "\<forall>k input. \<exists>v. embeddings_create E k input m = Returned v"
    and closed: "circuit_closed w"
    and ne: "\<not> is_empty df0" and col: "''metadata'' \<in> set (columns df0)"
    and kinds: "\<forall>r\<in>set (rows df0). decode_fails E r \<or> lacks_text E r \<or> has_text E r"
  shows "\<exists>g w'. generate_embeddings_and_add_to_df E df0 m w = (Inr g, w')
           \<and> length (rows g) = length (rows df0)
           \<and> (\<forall>j<length (rows df0).
                 cell_at (rows g ! j) ''embedding_status''
                   = (if has_text E (rows df0 ! j) then CStr ''success'' else CStr ''not_processed''))"
proof -
  let ?df1 = "set_column ''values'' (\<lambda>r. CNone) df0"
  let ?s0 = "\<lparr>df = ?df1, wld = w, successful_embeddings = 0, failed_embeddings = 0\<rparr>"
  let ?irs = "zip [0..<length (rows ?df1)] (rows ?df1)"
  have r1: "rows ?df1 = map (AList.update ''values'' CNone) (rows df0)"
    by (simp add: set_column_def)
  have d: "distinct (map fst ?irs)" by simp
  have z: "(j, r) \<in> set ?irs \<longleftrightarrow> j < length (rows df0) \<and> r = AList.update ''values'' CNone (rows df0 ! j)"
    for j r
    using in_set_zip_upt[of "rows ?df1" "length (rows ?df1)" j r] by (auto simp: r1)
  have k: "\<forall>(i, row)\<in>set ?irs. decode_fails E row \<or> lacks_text E row \<or> has_text E row"
    using kinds by (auto simp: z kinds_values)
  have c0: "circuit_closed (wld ?s0)" using closed by simp
  have dfs0: "df ?s0 = ?df1" by simp
  from process_rows_batch[OF ok emb c0 d k, unfolded dfs0]
  obtain s' where s': "process_rows E m ?irs ?s0 = Finished s'"
    "length (rows (df s')) = length (rows ?df1)"
    "\<forall>j<length (rows ?df1).
              if \<exists>row. (j, row) \<in> set ?irs \<and> has_text E row
              then \<exists>v. rows (df s') ! j = AList.update ''values'' (CList v) (rows ?df1 ! j)
              else rows (df s') ! j = rows ?df1 ! j"
    by blast
  let ?g = "set_column ''embedding_status'' embedding_status (df s')"
  have g: "generate_embeddings_and_add_to_df E df0 m w = (Inr ?g, snd (get_error_summary E (wld s')))"
    using ne col s'(1) by (simp add: generate_embeddings_and_add_to_df_def Let_def)
  have len: "length (rows ?g) = length (rows df0)"
    using s'(2) by (simp add: set_column_def)
  have st: "cell_at (rows ?g ! j) ''embedding_status''
              = (if has_text E (rows df0 ! j) then CStr ''success'' else CStr ''not_processed'')"
    if j: "j < length (rows df0)" for j
  proof -
    have j1: "j < length (rows ?df1)" using j by (simp add: r1)
    have e: "(\<exists>row. (j, row) \<in> set ?irs \<and> has_text E row) = has_text E (rows df0 ! j)"
      using j by (simp add: z kinds_values)
    have x: "rows ?df1 ! j = AList.update ''values'' CNone (rows df0 ! j)"
      using j by (simp add: r1)
    have "cell_at (rows ?g ! j) ''embedding_status'' = embedding_status (rows (df s') ! j)"
      using j s'(2) by (simp add: set_column_def r1 cell_at_update)
    also have "\<dots> = (if has_text E (rows df0 ! j) then CStr ''success'' else CStr ''not_processed'')"
    proof -
      have sj: "if has_text E (rows df0 ! j)
                then \<exists>v. rows (df s') ! j = AList.update ''values'' (CList v) (rows ?df1 ! j)
                else rows (df s') ! j = rows ?df1 ! j"
        using s'(3)[rule_format, OF j1] unfolding e .
      show ?thesis
      proof (cases "has_text E (rows df0 ! j)")
        case True
        with sj obtain v where "rows (df s') ! j = AList.update ''values'' (CList v) (rows ?df1 ! j)"
          by auto
        then show ?thesis using True by (simp add: embedding_status_values is_list_def)
      next
        case False
        with sj have "rows (df s') ! j = rows ?df1 ! j" by simp
        then show ?thesis using False by (simp add: x embedding_status_values is_list_def)
      qed
    qed
    finally show ?thesis .
  qed
  from g len st show ?thesis by blast
qed

lemma length_filter_pointwise:
  "length xs = length ys \<Longrightarrow> (\<forall>j<length xs. P (xs ! j) = Q (ys ! j)) \<Longrightarrow>
     length (filter P xs) = length (filter Q ys)"
proof (induction xs ys rule: list_induct2)
  case Nil
  then show ?case by simp
next
  case (Cons x xs y ys)
  from Cons.prems have h: "P x = Q y" by force
  from Cons.prems have "\<forall>j<length xs. P (xs ! j) = Q (ys ! j)" by force
  with Cons.IH h show ?case by simp
qed

lemma count_all_but_two:
  assumes "length xs = 25" "a < 25" "b < 25" "a \<noteq> b"
    and "\<forall>j<25. Q (xs ! j) = (j \<noteq> a \<and> j \<noteq> b)"
  shows "length (filter Q xs) = 23"
proof -
  have "{i. i < length xs \<and> Q (xs ! i)} = {..<25} - {a, b}"
    using assms by auto
  moreover have "card ({..<25::nat} - {a, b}) = 23"
    using assms by (simp add: card_Diff_subset)
  ultimately show ?thesis
    by (simp add: length_filter_conv_card)
qed

text \<open>
  C4, amended. Provided the appends to the error log succeed: a row whose metadata is a
  string that fails JSON decoding, or is a string that decodes to an object without a
  non-empty \<open>text\<close>, is logged (the call of \<open>log_error\<close> returns its entry and the count of
  \<open>json_decode\<close> or \<open>missing_text\<close> grows by one), counted as failed and skipped with
  the frame untouched, and the loop goes on with the later rows from that state. In
  particular, for a batch of 25 rows with a \<open>metadata\<close> column where exactly two rows
  (the 10th and 11th, or any two positions \<open>a\<close>, \<open>b\<close>) hold as metadata a string
  that fails JSON decoding, the metadata of every other row is a string that decodes to
  an object whose \<open>text\<close> is a non-empty string, every embedding request returns a
  vector, and fewer than five rate-limit errors are counted when the batch starts, the function returns all 25 rows, exactly 23 of them
  tagged \<open>embedding_status = success\<close>, the two failing rows tagged \<open>not_processed\<close>.
\<close>

theorem generate_partial_failure:
  "(\<forall>k p. append_ok E k p) \<longrightarrow>
     ((decode_fails E row \<or> lacks_text E row) \<longrightarrow>
        process_rows E m ((i, row) # later) s = process_rows E m later (skipped E row s)
        \<and> df (skipped E row s) = df s
        \<and> failed_embeddings (skipped E row s) = failed_embeddings s + 1
        \<and> dict_get (error_counts (trk (wld (skipped E row s)))) (skip_type E row) 0
            = dict_get (error_counts (trk (wld s))) (skip_type E row) 0 + 1
        \<and> (\<exists>entry. fst (log_error E (skip_type E row) (diagnostic E (steps (wld s))) ''openai'' (wld s))
                     = Inr entry))
     \<and> (length (rows df0) = 25 \<and> ''metadata'' \<in> set (columns df0) \<and> a < 25 \<and> b < 25 \<and> a \<noteq> b
        \<and> (\<forall>j<25. if j = a \<or> j = b then decode_fails E (rows df0 ! j) else has_text E (rows df0 ! j))
        \<and> (\<forall>k input. \<exists>v. embeddings_create E k input m = Returned v)
        \<and> circuit_closed w
        \<longrightarrow> (\<exists>g w'. generate_embeddings_and_add_to_df E df0 m w = (Inr g, w')
               \<and> length (rows g) = 25
               \<and> length (filter (\<lambda>r. cell_at r ''embedding_status'' = CStr ''success'') (rows g)) = 23
               \<and> (\<forall>j<25. cell_at (rows g ! j) ''embedding_status''
                      = (if j = a \<or> j = b then CStr ''not_processed'' else CStr ''success''))))"
proof (intro impI conjI)
  assume ok: "\<forall>k p. append_ok E k p"
  {
    assume sk: "decode_fails E row \<or> lacks_text E row"
    show "process_rows E m ((i, row) # later) s = process_rows E m later (skipped E row s)"
      by (simp add: process_row_skipped[OF ok sk])
    show "df (skipped E row s) = df s" by (rule skipped_df)
    show "failed_embeddings (skipped E row s) = failed_embeddings s + 1"
      by (simp add: skipped_def)
    show "dict_get (error_counts (trk (wld (skipped E row s)))) (skip_type E row) 0
            = dict_get (error_counts (trk (wld s))) (skip_type E row) 0 + 1"
      by (simp add: skipped_def log_error_counts dict_get_update)
    show "\<exists>entry. fst (log_error E (skip_type E row) (diagnostic E (steps (wld s))) ''openai'' (wld s))
                     = Inr entry"
      by (rule log_error_returns[OF ok])
  }
  assume h: "length (rows df0) = 25 \<and> ''metadata'' \<in> set (columns df0) \<and> a < 25 \<and> b < 25 \<and> a \<noteq> b
        \<and> (\<forall>j<25. if j = a \<or> j = b then decode_fails E (rows df0 ! j) else has_text E (rows df0 ! j))
        \<and> (\<forall>k input. \<exists>v. embeddings_create E k input m = Returned v)
        \<and> circuit_closed w"
  then have len: "length (rows df0) = 25" and col: "''metadata'' \<in> set (columns df0)"
    and ab: "a < 25" "b < 25" "a \<noteq> b"
    and rowsk: "\<forall>j<25. if j = a \<or> j = b then decode_fails E (rows df0 ! j) else has_text E (rows df0 ! j)"
    and emb: "\<forall>k input. \<exists>v. embeddings_create E k input m = Returned v"
    and closed: "circuit_closed w"
    by simp_all
  have ne: "\<not> is_empty df0" using len col by (auto simp: is_empty_def)
  have excl: "has_text E r \<Longrightarrow> \<not> decode_fails E r" for r
    by (auto simp: has_text_def decode_fails_def split: cell.splits option.splits)
  have kinds: "\<forall>r\<in>set (rows df0). decode_fails E r \<or> lacks_text E r \<or> has_text E r"
  proof
    fix r assume "r \<in> set (rows df0)"
    then obtain j where "j < 25" "r = rows df0 ! j" using len by (auto simp: in_set_conv_nth)
    with rowsk show "decode_fails E r \<or> lacks_text E r \<or> has_text E r"
      by (auto split: if_splits)
  qed
  have ht: "has_text E (rows df0 ! j) = (j \<noteq> a \<and> j \<noteq> b)" if "j < 25" for j
    using rowsk that excl by (auto split: if_splits)
  from generate_statuses[OF ok emb closed ne col kinds]
  obtain g w' where g: "generate_embeddings_and_add_to_df E df0 m w = (Inr g, w')"
    "length (rows g) = length (rows df0)"
    "\<forall>j<length (rows df0).
        cell_at (rows g ! j) ''embedding_status''
          = (if has_text E (rows df0 ! j) then CStr ''success'' else CStr ''not_processed'')"
    by blast
  have st: "\<forall>j<25. cell_at (rows g ! j) ''embedding_status''
                      = (if j = a \<or> j = b then CStr ''not_processed'' else CStr ''success'')"
    using g(3) len ht by auto
  have "length (filter (\<lambda>r. cell_at r ''embedding_status'' = CStr ''success'') (rows g))
          = length (filter (has_text E) (rows df0))"
    by (rule length_filter_pointwise) (use g(2,3) in auto)
  also have "\<dots> = 23"
    by (rule count_all_but_two[OF len ab]) (use ht in simp)
  finally have cnt: "length (filter (\<lambda>r. cell_at r ''embedding_status'' = CStr ''success'') (rows g)) = 23" .
  from g(1) g(2) len cnt st
  show "\<exists>g w'. generate_embeddings_and_add_to_df E df0 m w = (Inr g, w')
               \<and> length (rows g) = 25
               \<and> length (filter (\<lambda>r. cell_at r ''embedding_status'' = CStr ''success'') (rows g)) = 23
               \<and> (\<forall>j<25. cell_at (rows g ! j) ''embedding_status''
                      = (if j = a \<or> j = b then CStr ''not_processed'' else CStr ''success''))"
    by auto
qed

theorem generate_partial_failure_witness:
  "(\<forall>k p. append_ok E1 k p)
   \<and> decode_fails E1 [(''id'', CStr ''2''), (''metadata'', CStr ''bad'')]
   \<and> (\<exists>g w'. generate_embeddings_and_add_to_df E1 batch25 ''text-embedding-3-small'' w0 = (Inr g, w')
         \<and> length (filter (\<lambda>r. cell_at r ''embedding_status'' = CStr ''success'') (rows g)) = 23)
   \<and> process_rows E1 ''text-embedding-3-small'' [(0, [(''id'', CStr ''2''), (''metadata'', CStr ''bad'')])]
         \<lparr>df = batch_bad, wld = w0, successful_embeddings = 0, failed_embeddings = 0\<rparr>
       = Finished (skipped E1 [(''id'', CStr ''2''), (''metadata'', CStr ''bad'')]
           \<lparr>df = batch_bad, wld = w0, successful_embeddings = 0, failed_embeddings = 0\<rparr>)"
proof -
  let ?bad = "[(''id'', CStr ''2''), (''metadata'', CStr ''bad'')]"
  let ?s = "\<lparr>df = batch_bad, wld = w0, successful_embeddings = 0, failed_embeddings = 0\<rparr>"
  have ok: "\<forall>k p. append_ok E1 k p" by (simp add: E1_def E0_def)
  have bad: "decode_fails E1 ?bad"
    by (simp add: decode_fails_def cell_at_def dict_get_def E1_def)
  have emb: "\<forall>k input. \<exists>v. embeddings_create E1 k input ''text-embedding-3-small'' = Returned v"
    by (simp add: E1_def)
  have closed: "circuit_closed w0"
    by (simp add: circuit_closed_def w0_def APIErrorTracker_def dict_has_def)
  have len: "length (rows batch25) = 25" by (simp add: batch25_def)
  have col: "''metadata'' \<in> set (columns batch25)" by (simp add: batch25_def)
  have good: "has_text E1 [(''id'', CStr a), (''metadata'', CStr ''alpha'')]"
     "has_text E1 [(''id'', CStr a), (''metadata'', CStr ''beta'')]" for a
    by (simp_all add: has_text_def cell_at_def dict_get_def E1_def)
  have rowsk: "\<forall>j<25. if j = 9 \<or> j = 10 then decode_fails E1 (rows batch25 ! j)
                       else has_text E1 (rows batch25 ! j)"
  proof (intro allI impI)
    fix j :: nat assume j: "j < 25"
    consider "j < 9" | "j = 9" | "j = 10" | "11 \<le> j" by linarith
    then show "if j = 9 \<or> j = 10 then decode_fails E1 (rows batch25 ! j)
                       else has_text E1 (rows batch25 ! j)"
    proof cases
      case 1
      then show ?thesis by (simp add: batch25_def nth_append good)
    next
      case 2
      then show ?thesis using bad by (simp add: batch25_def nth_append)
    next
      case 3
      have "decode_fails E1 [(''id'', CStr ''3''), (''metadata'', CStr ''bad'')]"
        by (simp add: decode_fails_def cell_at_def dict_get_def E1_def)
      with 3 show ?thesis by (simp add: batch25_def nth_append)
    next
      case 4
      with j show ?thesis by (simp add: batch25_def nth_append good)
    qed
  qed
  note T = generate_partial_failure[where E = E1 and row = ?bad and m = "''text-embedding-3-small''"
      and i = 0 and later = "[]" and s = ?s and ?df0.0 = batch25 and a = 9 and b = 10 and w = w0,
      THEN mp, OF ok]
  have a: "process_rows E1 ''text-embedding-3-small'' [(0, ?bad)] ?s = Finished (skipped E1 ?bad ?s)"
    using T[THEN conjunct1, THEN mp] bad by simp
  have b: "\<exists>g w'. generate_embeddings_and_add_to_df E1 batch25 ''text-embedding-3-small'' w0 = (Inr g, w')
         \<and> length (filter (\<lambda>r. cell_at r ''embedding_status'' = CStr ''success'') (rows g)) = 23"
  proof -
    have hyp: "length (rows batch25) = 25 \<and> ''metadata'' \<in> set (columns batch25)
        \<and> (9::nat) < 25 \<and> (10::nat) < 25 \<and> (9::nat) \<noteq> 10
        \<and> (\<forall>j<25. if j = 9 \<or> j = 10 then decode_fails E1 (rows batch25 ! j)
                       else has_text E1 (rows batch25 ! j))
        \<and> (\<forall>k input. \<exists>v. embeddings_create E1 k input ''text-embedding-3-small'' = Returned v)
        \<and> circuit_closed w0"
      using len col rowsk emb closed by simp
    from T[THEN conjunct2, THEN mp, OF hyp] show ?thesis by blast
  qed
  from ok bad a b show ?thesis by blast
qed


lemma embed_row_stopped:
  assumes "retries \<le> 3" and "fst (should_continue E ''rate_limit'' 5 60 (wld s)) = False"
  shows "embed_row E m i txt 3 retries s
           = Stopped (s\<lparr>wld := snd (should_continue E ''rate_limit'' 5 60 (wld s))\<rparr>)"
  using assms
  by (subst embed_row.simps) (cases "should_continue E ''rate_limit'' 5 60 (wld s)", simp)






lemma generate_stopped_first:
  assumes "rows df0 = r # rs" and "''metadata'' \<in> set (columns df0)" and "has_text E r"
    and "fst (should_continue E ''rate_limit'' 5 60 w) = False"
  shows "generate_embeddings_and_add_to_df E df0 m w
           = (Inr (set_column ''embedding_status'' embedding_status (set_column ''values'' (\<lambda>r. CNone) df0)),
              snd (should_continue E ''rate_limit'' 5 60 w))"
proof -
  let ?df1 = "set_column ''values'' (\<lambda>r. CNone) df0"
  let ?s0 = "\<lparr>df = ?df1, wld = w, successful_embeddings = 0, failed_embeddings = 0\<rparr>"
  let ?r1 = "AList.update ''values'' CNone r"
  have z: "zip [0..<length (rows ?df1)] (rows ?df1)
             = (0, ?r1) # zip [Suc 0..<Suc (length rs)] (map (AList.update ''values'' CNone) rs)"
    using assms(1) by (simp add: set_column_def upt_conv_Cons del: upt_Suc)
  from assms(3) have "has_text E ?r1" by (simp add: kinds_values)
  then obtain c kvs t where c: "cell_at ?r1 ''metadata'' = CStr c"
      and l: "json_loads E c = Some (JObj kvs)"
      and t: "dict_get kvs ''text'' (JStr []) = JStr t" "t \<noteq> []"
    by (auto simp: has_text_def split: cell.splits option.splits json.splits)
  have "process_row E m (0, ?r1) ?s0 = embed_row E m 0 (JStr t) 3 0 ?s0"
    by (simp add: process_row_def c l t Let_def)
  also have "\<dots> = Stopped (?s0\<lparr>wld := snd (should_continue E ''rate_limit'' 5 60 w)\<rparr>)"
    using embed_row_stopped[of 0 E ?s0 m 0 "JStr t"] assms(4) by simp
  finally have "process_rows E m (zip [0..<length (rows ?df1)] (rows ?df1)) ?s0
                  = Stopped (?s0\<lparr>wld := snd (should_continue E ''rate_limit'' 5 60 w)\<rparr>)"
    unfolding z by simp
  then show ?thesis
    using assms(1,2) unfolding generate_embeddings_and_add_to_df_def Let_def
    by (auto simp: is_empty_def)
qed

lemma generate_open_circuit:
  "length (filter (\<lambda>r. cell_at r ''embedding_status'' = CStr ''success'')
      (case fst (generate_embeddings_and_add_to_df E1 batch25 ''text-embedding-3-small'' w5) of
         Inr g \<Rightarrow> rows g | Inl e \<Rightarrow> [])) = 0"
proof -
  have sc: "fst (should_continue E1 ''rate_limit'' 5 60 w5) = False"
    by (simp add: w5_def should_continue_def log_error_def Let_def w0_def APIErrorTracker_def E1_def E0_def
        dict_get_def dict_has_def)
  have r: "rows batch25 = [(''id'', CStr ''1''), (''metadata'', CStr ''alpha'')] # rows (iloc 1 25 batch25)"
    by (simp add: batch25_def iloc_def numeral_nat)
  have h: "has_text E1 [(''id'', CStr ''1''), (''metadata'', CStr ''alpha'')]"
    by (simp add: has_text_def cell_at_def dict_get_def E1_def)
  have c: "''metadata'' \<in> set (columns batch25)" by (simp add: batch25_def)
  show ?thesis
    unfolding generate_stopped_first[OF r c h sc]
    by (simp add: set_column_def cell_at_update embedding_status_def dict_get_update is_list_def
          filter_empty_conv)
qed

text \<open>
  C4, as stated, fails. The batch has a first row whose metadata fails decoding and a
  second, sound row. When the append to the error log fails, \<open>log_error\<close> raises inside
  the handler and the whole call raises \<open>OSError\<close>: the batch is stopped and the second
  row is never processed. A row whose metadata decodes to something that is not an object
  (here the list \<open>[]\<close>, which has no text field) is not skipped either: \<open>meta.get\<close>
  raises \<open>AttributeError\<close>, which nothing in the function catches. Nor is a row
  whose metadata cell is not a string (here \<open>NaN\<close>, a missing value): \<open>json.loads\<close>
  raises \<open>TypeError\<close>, which is not a \<open>JSONDecodeError\<close>. And in the batch of
  25 rows whose 10th and 11th rows fail decoding, served by an embedding service that
  answers every request, no row ends tagged \<open>success\<close> when five rate-limit errors were
  counted just before the batch: the check stops the function at the first row.
\<close>

theorem generate_aborts_on_skipped_row:
  "fst (generate_embeddings_and_add_to_df (E1\<lparr>append_ok := (\<lambda>k p. False)\<rparr>) batch_bad
          ''text-embedding-3-small'' w0) = Inl OSError
   \<and> fst (generate_embeddings_and_add_to_df (E1\<lparr>json_loads := (\<lambda>s. Some (JArr []))\<rparr>) batch_bad
          ''text-embedding-3-small'' w0) = Inl AttributeError
   \<and> fst (generate_embeddings_and_add_to_df E1
          \<lparr>columns = [''id'', ''metadata''],
           rows = [[(''id'', CStr ''1''), (''metadata'', CNaN)],
                   [(''id'', CStr ''2''), (''metadata'', CStr ''alpha'')]]\<rparr>
          ''text-embedding-3-small'' w0) = Inl TypeError
   \<and> length (filter (\<lambda>r. cell_at r ''embedding_status'' = CStr ''success'')
        (case fst (generate_embeddings_and_add_to_df E1 batch25 ''text-embedding-3-small'' w5) of
           Inr g \<Rightarrow> rows g | Inl e \<Rightarrow> [])) = 0"
proof -
  have "fst (generate_embeddings_and_add_to_df (E1\<lparr>append_ok := (\<lambda>k p. False)\<rparr>) batch_bad
          ''text-embedding-3-small'' w0) = Inl OSError"
    by (simp add: generate_embeddings_and_add_to_df_def batch_bad_def is_empty_def set_column_def
        process_row_def log_failed_def log_error_def cell_at_def dict_get_def E1_def E0_def w0_def
        Let_def upt_rec)
  moreover have "fst (generate_embeddings_and_add_to_df (E1\<lparr>json_loads := (\<lambda>s. Some (JArr []))\<rparr>) batch_bad
          ''text-embedding-3-small'' w0) = Inl AttributeError"
    by (simp add: generate_embeddings_and_add_to_df_def batch_bad_def is_empty_def set_column_def
        process_row_def cell_at_def dict_get_def E1_def E0_def w0_def Let_def upt_rec)
  moreover have "fst (generate_embeddings_and_add_to_df E1
          \<lparr>columns = [''id'', ''metadata''],
           rows = [[(''id'', CStr ''1''), (''metadata'', CNaN)],
                   [(''id'', CStr ''2''), (''metadata'', CStr ''alpha'')]]\<rparr>
          ''text-embedding-3-small'' w0) = Inl TypeError"
    by (simp add: generate_embeddings_and_add_to_df_def is_empty_def set_column_def
        process_row_def cell_at_def dict_get_def E1_def E0_def w0_def Let_def upt_rec)
  ultimately show ?thesis using generate_open_circuit by simp
qed


section \<open>The ingestion refresh\<close>






















































end
